theory Spec2Isabelle
  imports Main
begin

section \<open>The dependency-injection library of \<^verbatim>\<open>src/index.ts\<close>\<close>

text \<open>
  The library keeps one module-level slot, \<^verbatim>\<open>globalContainerContext\<close>, and three kinds
  of objects with reference identity: function objects, containers and the
  \<^verbatim>\<open>WeakMap\<close> of singleton states, which a cloned container shares with its source.
  The model keeps each kind in a store of its own (a list; the identity of an object is
  its index, and a new object is appended), so that the sharing of the source is the
  sharing of the model.
\<close>

subsection \<open>Values and function objects\<close>

type_synonym fid = nat  \<comment> \<open>identity of a function object\<close>
type_synonym cid = nat  \<comment> \<open>identity of a container object\<close>
type_synonym wid = nat  \<comment> \<open>identity of a \<^verbatim>\<open>WeakMap\<close> of singleton states\<close>

datatype val =
    Undefined
  | Num int
  | Fn fid
  | Cont cid
  | Arr "val list"

text \<open>
  The functions a caller hands to the library are arbitrary TypeScript. They are
  represented by the expressions below: everything such a function can do to the
  library (it has no access to the module-level slot, and is taken to use containers
  only through the exported functions) together with variables of the enclosing
  scope, sequencing, array literals, a comparison and exceptions.
  \<^verbatim>\<open>transient\<close> is \<^verbatim>\<open>dependency\<close>; the \<^verbatim>\<open>bind\<close> that \<^verbatim>\<open>withContainer\<close> passes to its
  callback is always the module's \<^verbatim>\<open>_bind\<close>, so it is written \<open>Bind\<close> wherever the
  callback uses it. An omitted optional argument is \<open>Lit Undefined\<close>, as in JavaScript.
\<close>

datatype expr =
    Lit val
  | Var nat
  | Assign nat expr
  | PostInc nat
  | Seq expr expr
  | ArrLit "expr list"
  | IfEq expr expr expr expr
  | Lam expr
  | Invoke expr
  | Throw expr
  | TryCatch expr expr
  | Dependency expr
  | SingletonFunction expr
  | Singleton expr
  | Bind expr expr
  | WithContainer expr expr
  | CreateContainer expr
  | GetCaller

text \<open>
  A function object is the closure \<^verbatim>\<open>self\<close> that \<^verbatim>\<open>dependency(defaultFn)\<close> returns
  (it carries \<^verbatim>\<open>defaultFn\<close> under \<^verbatim>\<open>DEPENDENCY_TAG\<close>), the closure \<^verbatim>\<open>self\<close> that
  \<^verbatim>\<open>singletonFunction(fn)\<close> returns, or a function of the caller.
\<close>

datatype fn =
    DependencyFn fid
  | SingletonFn fid
  | UserFn expr

datatype exn =
    ScopeRequiredError  \<comment> \<open>the \<^verbatim>\<open>Error\<close> thrown by \<^verbatim>\<open>assertContainerContext\<close>\<close>
  | TypeError           \<comment> \<open>a program that TypeScript rejects, or a call of a non-function\<close>
  | UserError val       \<comment> \<open>a value thrown by the caller's code\<close>

subsection \<open>Containers and the state\<close>

record container =
  dependenciesMap :: "fid \<rightharpoonup> fid"
  singletonsStateMap :: wid
  callersStack :: "fid list"

record state =
  globalContainerContext :: "cid option"
  funs :: "fn list"
  containers :: "container list"
  weakmaps :: "(fid \<rightharpoonup> val) list"
  vars :: "nat \<Rightarrow> val"

type_synonym 'a result = "((exn + 'a) \<times> state) option"
  \<comment> \<open>\<open>None\<close>: the call does not return; \<open>Inl\<close>: it throws; \<open>Inr\<close>: it returns\<close>

type_synonym invoker = "fid \<Rightarrow> state \<Rightarrow> val result"

definition fn_at :: "state \<Rightarrow> fid \<Rightarrow> fn option" where
  "fn_at s f = (if f < length (funs s) then Some (funs s ! f) else None)"

definition new_fn :: "fn \<Rightarrow> state \<Rightarrow> fid \<times> state" where
  "new_fn f s = (length (funs s), s\<lparr>funs := funs s @ [f]\<rparr>)"

definition upd_container :: "cid \<Rightarrow> (container \<Rightarrow> container) \<Rightarrow> state \<Rightarrow> state" where
  "upd_container c g s = s\<lparr>containers := (containers s)[c := g (containers s ! c)]\<rparr>"

subsection \<open>The library\<close>

text \<open>
  Each definition is the function of that name in \<^verbatim>\<open>src/index.ts\<close>; \<open>the_context\<close> is
  \<^verbatim>\<open>_context\<close> and \<open>bind\<close> is \<^verbatim>\<open>_bind\<close>. \<open>dependency_self\<close> and \<open>singletonFunction_self\<close>
  are the closures \<^verbatim>\<open>self\<close> that \<^verbatim>\<open>dependency\<close> and \<^verbatim>\<open>singletonFunction\<close> return; they and
  \<^verbatim>\<open>withContainer\<close> call a function they were given, and take the call of function
  objects as their first argument. A \<^verbatim>\<open>try ... finally\<close> is the update made to the state
  of either outcome of the call.

  \<^verbatim>\<open>createContainer\<close> makes the \<^verbatim>\<open>Map\<close> and the array of a container anew and nothing
  hands them to another container, so they are fields of the container here; the
  \<^verbatim>\<open>WeakMap\<close> is a reference into the store \<open>weakmaps\<close>. A reference that a run from the
  empty state holds is to an object that exists; where a statement needs a container
  \<open>c\<close> to exist it says \<open>c < length (containers s)\<close>.

  \<^verbatim>\<open>factory\<close> and the type parameters \<^verbatim>\<open>Allow\<close> and \<^verbatim>\<open>Deny\<close>, which have no effect when the
  program runs, are left out.
\<close>

definition createContainer :: "cid option \<Rightarrow> state \<Rightarrow> cid \<times> state" where
  "createContainer cont s =
     (case cont of
        Some c \<Rightarrow>
          (length (containers s),
           s\<lparr>containers := containers s @
                [\<lparr>dependenciesMap = dependenciesMap (containers s ! c),
                  singletonsStateMap = singletonsStateMap (containers s ! c),
                  callersStack = []\<rparr>]\<rparr>)
      | None \<Rightarrow>
          (length (containers s),
           s\<lparr>weakmaps := weakmaps s @ [Map.empty],
             containers := containers s @
                [\<lparr>dependenciesMap = Map.empty,
                  singletonsStateMap = length (weakmaps s),
                  callersStack = []\<rparr>]\<rparr>))"

definition assertContainerContext :: "cid option \<Rightarrow> exn + cid" where
  "assertContainerContext ctx = (case ctx of None \<Rightarrow> Inl ScopeRequiredError | Some c \<Rightarrow> Inr c)"

definition the_context :: "state \<Rightarrow> exn + cid" where
  "the_context s = assertContainerContext (globalContainerContext s)"

definition dependency :: "fid \<Rightarrow> state \<Rightarrow> fid \<times> state" where
  "dependency defaultFn s = new_fn (DependencyFn defaultFn) s"

definition dependency_self :: "invoker \<Rightarrow> fid \<Rightarrow> fid \<Rightarrow> state \<Rightarrow> val result" where
  "dependency_self invoke self defaultFn s =
     (case the_context s of
        Inl e \<Rightarrow> Some (Inl e, s)
      | Inr c \<Rightarrow>
          (let (depFn, s1) =
                 (case dependenciesMap (containers s ! c) self of
                    Some g \<Rightarrow> (g, s)
                  | None \<Rightarrow>
                      (defaultFn,
                       upd_container c
                         (\<lambda>k. k\<lparr>dependenciesMap := (dependenciesMap k)(self \<mapsto> defaultFn)\<rparr>) s));
               s2 = upd_container c (\<lambda>k. k\<lparr>callersStack := callersStack k @ [self]\<rparr>) s1
           in case invoke depFn s2 of
                None \<Rightarrow> None
              | Some (r, s3) \<Rightarrow>
                  Some (r, upd_container c
                             (\<lambda>k. k\<lparr>callersStack := butlast (callersStack k)\<rparr>) s3)))"

definition singletonFunction :: "fid \<Rightarrow> state \<Rightarrow> fid \<times> state" where
  "singletonFunction fn s = new_fn (SingletonFn fn) s"

definition singletonFunction_self :: "invoker \<Rightarrow> fid \<Rightarrow> fid \<Rightarrow> state \<Rightarrow> val result" where
  "singletonFunction_self invoke self fn s =
     (case the_context s of
        Inl e \<Rightarrow> Some (Inl e, s)
      | Inr c \<Rightarrow>
          (let w = singletonsStateMap (containers s ! c)
           in case (weakmaps s ! w) self of
                Some v \<Rightarrow> Some (Inr v, s)
              | None \<Rightarrow>
                  (case invoke fn s of
                     None \<Rightarrow> None
                   | Some (Inl e, s1) \<Rightarrow> Some (Inl e, s1)
                   | Some (Inr v, s1) \<Rightarrow>
                       Some (Inr v,
                             s1\<lparr>weakmaps := (weakmaps s1)[w := (weakmaps s1 ! w)(self \<mapsto> v)]\<rparr>))))"

definition bind :: "fid \<Rightarrow> fid \<Rightarrow> state \<Rightarrow> (exn + val) \<times> state" where
  "bind dep fn s =
     (case the_context s of
        Inl e \<Rightarrow> (Inl e, s)
      | Inr c \<Rightarrow>
          (let fn' =
                 (case fn_at s fn of
                    Some (DependencyFn tag) \<Rightarrow>
                      (case dependenciesMap (containers s ! c) fn of
                         Some depFn \<Rightarrow> depFn
                       | None \<Rightarrow> tag)
                  | _ \<Rightarrow> fn)
           in (Inr Undefined,
               upd_container c (\<lambda>k. k\<lparr>dependenciesMap := (dependenciesMap k)(dep \<mapsto> fn')\<rparr>) s)))"

definition withContainer :: "invoker \<Rightarrow> fid \<Rightarrow> cid option \<Rightarrow> state \<Rightarrow> val result" where
  "withContainer invoke fn ctx s =
     (let (c, s0) = (case ctx of None \<Rightarrow> createContainer None s | Some c \<Rightarrow> (c, s));
          prevContext = globalContainerContext s0;
          s1 = s0\<lparr>globalContainerContext := Some c\<rparr>
      in case invoke fn s1 of
           None \<Rightarrow> None
         | Some (r, s2) \<Rightarrow> Some (r, s2\<lparr>globalContainerContext := prevContext\<rparr>))"

definition getCaller :: "state \<Rightarrow> exn + val" where
  "getCaller s =
     (case the_context s of
        Inl e \<Rightarrow> Inl e
      | Inr c \<Rightarrow>
          (let st = callersStack (containers s ! c);
               i = int (length st) - 2
           in Inr (if 0 \<le> i then Fn (st ! nat i) else Undefined)))"

definition singleton :: "fid \<Rightarrow> state \<Rightarrow> fid \<times> state" where
  "singleton fn s = (let (g, s1) = singletonFunction fn s in dependency g s1)"

subsection \<open>Running the caller's code\<close>

text \<open>
  A call of a function object runs the library closure or the caller's expression it
  stands for. The first argument bounds the depth of nested calls: a chain of calls
  that never ends (the library does not detect a cycle of dependencies) has no result
  at any bound. A JavaScript engine ends such a chain with a \<^verbatim>\<open>RangeError\<close> when its
  stack is full, which the \<^verbatim>\<open>finally\<close> blocks of the library treat as any other throw;
  the statements below about the end of a call are about calls that end within a
  bound.

  Arguments are evaluated from left to right; an exception ends the evaluation of
  every expression but \<open>TryCatch\<close>. Numbers are integers, and \<open>PostInc\<close> adds one: that
  is \<^verbatim>\<open>i++\<close> for a counter below \<open>2 ^ 53\<close>, where the numbers of JavaScript are exact.
  Where TypeScript would reject the program (a number where a function or a container
  is expected) the evaluation ends with \<open>TypeError\<close> and the library is not called,
  also where the library, if called, would have thrown its own error first.
\<close>

text \<open>
  \<^verbatim>\<open>===\<close> on numbers, \<^verbatim>\<open>undefined\<close> and the identities of functions and containers.
  JavaScript compares arrays by identity, which the array values here do not have:
  two arrays count as different, which is right for the arrays of two array literals
  and wrong for one array object compared with itself (a singleton returns its cached
  array object each time). No run below compares arrays.
\<close>

fun strict_equal :: "val \<Rightarrow> val \<Rightarrow> bool" where
  "strict_equal (Arr xs) v = False"
| "strict_equal v (Arr ys) = False"
| "strict_equal v w = (v = w)"

fun evaluate :: "nat \<Rightarrow> expr \<Rightarrow> state \<Rightarrow> val result"
  and evaluates :: "nat \<Rightarrow> expr list \<Rightarrow> state \<Rightarrow> (val list) result"
  and call :: "nat \<Rightarrow> fid \<Rightarrow> state \<Rightarrow> val result"
where
  "evaluate n (Lit v) s = Some (Inr v, s)"
| "evaluate n (Var x) s = Some (Inr (vars s x), s)"
| "evaluate n (Assign x e) s =
     (case evaluate n e s of
        None \<Rightarrow> None
      | Some (Inl ex, s1) \<Rightarrow> Some (Inl ex, s1)
      | Some (Inr v, s1) \<Rightarrow> Some (Inr v, s1\<lparr>vars := (vars s1)(x := v)\<rparr>))"
| "evaluate n (PostInc x) s =
     (case vars s x of
        Num i \<Rightarrow> Some (Inr (Num i), s\<lparr>vars := (vars s)(x := Num (i + 1))\<rparr>)
      | _ \<Rightarrow> Some (Inl TypeError, s))"
| "evaluate n (Seq e1 e2) s =
     (case evaluate n e1 s of
        None \<Rightarrow> None
      | Some (Inl ex, s1) \<Rightarrow> Some (Inl ex, s1)
      | Some (Inr v, s1) \<Rightarrow> evaluate n e2 s1)"
| "evaluate n (ArrLit es) s =
     (case evaluates n es s of
        None \<Rightarrow> None
      | Some (Inl ex, s1) \<Rightarrow> Some (Inl ex, s1)
      | Some (Inr vs, s1) \<Rightarrow> Some (Inr (Arr vs), s1))"
| "evaluate n (IfEq e1 e2 e3 e4) s =
     (case evaluate n e1 s of
        None \<Rightarrow> None
      | Some (Inl ex, s1) \<Rightarrow> Some (Inl ex, s1)
      | Some (Inr v1, s1) \<Rightarrow>
          (case evaluate n e2 s1 of
             None \<Rightarrow> None
           | Some (Inl ex, s2) \<Rightarrow> Some (Inl ex, s2)
           | Some (Inr v2, s2) \<Rightarrow>
               if strict_equal v1 v2 then evaluate n e3 s2 else evaluate n e4 s2))"
| "evaluate n (Lam b) s = (let (f, s1) = new_fn (UserFn b) s in Some (Inr (Fn f), s1))"
| "evaluate n (Invoke e) s =
     (case evaluate n e s of
        None \<Rightarrow> None
      | Some (Inl ex, s1) \<Rightarrow> Some (Inl ex, s1)
      | Some (Inr v, s1) \<Rightarrow>
          (case v of Fn f \<Rightarrow> call n f s1 | _ \<Rightarrow> Some (Inl TypeError, s1)))"
| "evaluate n (Throw e) s =
     (case evaluate n e s of
        None \<Rightarrow> None
      | Some (Inl ex, s1) \<Rightarrow> Some (Inl ex, s1)
      | Some (Inr v, s1) \<Rightarrow> Some (Inl (UserError v), s1))"
| "evaluate n (TryCatch e1 e2) s =
     (case evaluate n e1 s of
        None \<Rightarrow> None
      | Some (Inl ex, s1) \<Rightarrow> evaluate n e2 s1
      | Some (Inr v, s1) \<Rightarrow> Some (Inr v, s1))"
| "evaluate n (Dependency e) s =
     (case evaluate n e s of
        None \<Rightarrow> None
      | Some (Inl ex, s1) \<Rightarrow> Some (Inl ex, s1)
      | Some (Inr v, s1) \<Rightarrow>
          (case v of
             Fn f \<Rightarrow> (let (d, s2) = dependency f s1 in Some (Inr (Fn d), s2))
           | _ \<Rightarrow> Some (Inl TypeError, s1)))"
| "evaluate n (SingletonFunction e) s =
     (case evaluate n e s of
        None \<Rightarrow> None
      | Some (Inl ex, s1) \<Rightarrow> Some (Inl ex, s1)
      | Some (Inr v, s1) \<Rightarrow>
          (case v of
             Fn f \<Rightarrow> (let (d, s2) = singletonFunction f s1 in Some (Inr (Fn d), s2))
           | _ \<Rightarrow> Some (Inl TypeError, s1)))"
| "evaluate n (Singleton e) s =
     (case evaluate n e s of
        None \<Rightarrow> None
      | Some (Inl ex, s1) \<Rightarrow> Some (Inl ex, s1)
      | Some (Inr v, s1) \<Rightarrow>
          (case v of
             Fn f \<Rightarrow> (let (d, s2) = singleton f s1 in Some (Inr (Fn d), s2))
           | _ \<Rightarrow> Some (Inl TypeError, s1)))"
| "evaluate n (Bind e1 e2) s =
     (case evaluate n e1 s of
        None \<Rightarrow> None
      | Some (Inl ex, s1) \<Rightarrow> Some (Inl ex, s1)
      | Some (Inr v1, s1) \<Rightarrow>
          (case evaluate n e2 s1 of
             None \<Rightarrow> None
           | Some (Inl ex, s2) \<Rightarrow> Some (Inl ex, s2)
           | Some (Inr v2, s2) \<Rightarrow>
               (case (v1, v2) of
                  (Fn d, Fn f) \<Rightarrow> Some (bind d f s2)
                | _ \<Rightarrow> Some (Inl TypeError, s2))))"
| "evaluate n (WithContainer e1 e2) s =
     (case evaluate n e1 s of
        None \<Rightarrow> None
      | Some (Inl ex, s1) \<Rightarrow> Some (Inl ex, s1)
      | Some (Inr v1, s1) \<Rightarrow>
          (case evaluate n e2 s1 of
             None \<Rightarrow> None
           | Some (Inl ex, s2) \<Rightarrow> Some (Inl ex, s2)
           | Some (Inr v2, s2) \<Rightarrow>
               (case (v1, v2) of
                  (Fn f, Undefined) \<Rightarrow> withContainer (call n) f None s2
                | (Fn f, Cont c) \<Rightarrow> withContainer (call n) f (Some c) s2
                | _ \<Rightarrow> Some (Inl TypeError, s2))))"
| "evaluate n (CreateContainer e) s =
     (case evaluate n e s of
        None \<Rightarrow> None
      | Some (Inl ex, s1) \<Rightarrow> Some (Inl ex, s1)
      | Some (Inr v, s1) \<Rightarrow>
          (case v of
             Undefined \<Rightarrow> (let (c, s2) = createContainer None s1 in Some (Inr (Cont c), s2))
           | Cont k \<Rightarrow> (let (c, s2) = createContainer (Some k) s1 in Some (Inr (Cont c), s2))
           | _ \<Rightarrow> Some (Inl TypeError, s1)))"
| "evaluate n GetCaller s = Some (getCaller s, s)"
| "evaluates n [] s = Some (Inr [], s)"
| "evaluates n (e # es) s =
     (case evaluate n e s of
        None \<Rightarrow> None
      | Some (Inl ex, s1) \<Rightarrow> Some (Inl ex, s1)
      | Some (Inr v, s1) \<Rightarrow>
          (case evaluates n es s1 of
             None \<Rightarrow> None
           | Some (Inl ex, s2) \<Rightarrow> Some (Inl ex, s2)
           | Some (Inr vs, s2) \<Rightarrow> Some (Inr (v # vs), s2)))"
| "call 0 f s = None"
| "call (Suc n) f s =
     (case fn_at s f of
        None \<Rightarrow> Some (Inl TypeError, s)
      | Some (DependencyFn defaultFn) \<Rightarrow> dependency_self (call n) f defaultFn s
      | Some (SingletonFn fn) \<Rightarrow> singletonFunction_self (call n) f fn s
      | Some (UserFn b) \<Rightarrow> evaluate n b s)"

subsection \<open>What a run leaves as it was\<close>

text \<open>
  \<open>frame s s'\<close> collects what no run of the caller's code or of the library changes
  between its start \<open>s\<close> and its end \<open>s'\<close>: the ambient slot, the function objects
  that exist, and for every container that exists its caller stack and the identity of
  its map of singleton states; the keys of its \<^verbatim>\<open>dependenciesMap\<close> are never removed.
\<close>

definition frame :: "state \<Rightarrow> state \<Rightarrow> bool" where
  "frame s s' \<longleftrightarrow>
     globalContainerContext s' = globalContainerContext s \<and>
     (\<exists>fs. funs s' = funs s @ fs) \<and>
     length (containers s) \<le> length (containers s') \<and>
     length (weakmaps s) \<le> length (weakmaps s') \<and>
     (\<forall>c < length (containers s).
        callersStack (containers s' ! c) = callersStack (containers s ! c) \<and>
        singletonsStateMap (containers s' ! c) = singletonsStateMap (containers s ! c) \<and>
        dom (dependenciesMap (containers s ! c)) \<subseteq> dom (dependenciesMap (containers s' ! c)))"

definition framed :: "state \<Rightarrow> 'a result \<Rightarrow> bool" where
  "framed s m = (case m of None \<Rightarrow> True | Some (r, s') \<Rightarrow> frame s s')"

subsection \<open>Runs and states of the examples\<close>

text \<open>
  A run starts with no object and no ambient container. Of a result, the examples read
  the value or exception, and parts of the final state.
\<close>

definition init :: state where
  "init = \<lparr>globalContainerContext = None, funs = [], containers = [], weakmaps = [],
            vars = (\<lambda>_. Undefined)\<rparr>"

definition outcome :: "'a result \<Rightarrow> (exn + 'a) option" where
  "outcome m = map_option fst m"

definition final_context :: "'a result \<Rightarrow> cid option option" where
  "final_context m = map_option (globalContainerContext \<circ> snd) m"

definition final_stack :: "cid \<Rightarrow> 'a result \<Rightarrow> fid list option" where
  "final_stack c m = map_option (\<lambda>p. callersStack (containers (snd p) ! c)) m"

definition final_entry :: "cid \<Rightarrow> fid \<Rightarrow> 'a result \<Rightarrow> fid option" where
  "final_entry c d m =
     (case m of None \<Rightarrow> None | Some (r, t) \<Rightarrow> dependenciesMap (containers t ! c) d)"

definition final_var :: "nat \<Rightarrow> 'a result \<Rightarrow> val option" where
  "final_var x m = (case m of None \<Rightarrow> None | Some (r, t) \<Rightarrow> Some (vars t x))"

definition final_fn :: "fid \<Rightarrow> 'a result \<Rightarrow> fn option" where
  "final_fn f m = (case m of None \<Rightarrow> None | Some (r, t) \<Rightarrow> fn_at t f)"

definition and_then :: "'a result \<Rightarrow> (state \<Rightarrow> 'b result) \<Rightarrow> 'b result" where
  "and_then m k = (case m of None \<Rightarrow> None | Some (r, t) \<Rightarrow> k t)"

text \<open>
  The counter of the test file, \<^verbatim>\<open>rand = () => i++\<close>, with \<^verbatim>\<open>i\<close> in variable 0; the runs
  below set \<^verbatim>\<open>i\<close> first and keep the dependency in variable 1.
\<close>

definition rand :: expr where
  "rand = Lam (PostInc 0)"

text \<open>\<^verbatim>\<open>D = dependency(rand); withContainer(() => [D(), D()])\<close>\<close>

definition transient_twice :: "int \<Rightarrow> expr" where
  "transient_twice i =
     Seq (Assign 0 (Lit (Num i)))
    (Seq (Assign 1 (Dependency rand))
         (WithContainer (Lam (ArrLit [Invoke (Var 1), Invoke (Var 1)])) (Lit Undefined)))"

text \<open>\<^verbatim>\<open>S = singleton(rand); withContainer(() => [S(), S()])\<close>\<close>

definition singleton_twice :: "int \<Rightarrow> expr" where
  "singleton_twice i =
     Seq (Assign 0 (Lit (Num i)))
    (Seq (Assign 1 (Singleton rand))
         (WithContainer (Lam (ArrLit [Invoke (Var 1), Invoke (Var 1)])) (Lit Undefined)))"

text \<open>\<^verbatim>\<open>S = singleton(rand); [withContainer(() => S()), withContainer(() => S())]\<close>\<close>

definition singleton_two_runs :: "int \<Rightarrow> expr" where
  "singleton_two_runs i =
     Seq (Assign 0 (Lit (Num i)))
    (Seq (Assign 1 (Singleton rand))
         (ArrLit [WithContainer (Lam (Invoke (Var 1))) (Lit Undefined),
                  WithContainer (Lam (Invoke (Var 1))) (Lit Undefined)]))"

text \<open>
  The test \<^verbatim>\<open>cloned containers\<close>: the function \<^verbatim>\<open>rand\<close> in variable 4,
  \<^verbatim>\<open>S = singleton(rand)\<close>, \<^verbatim>\<open>c1 = createContainer()\<close> in variable 2 and its clone
  \<^verbatim>\<open>c2 = createContainer(c1)\<close> in variable 3. \<^verbatim>\<open>S\<close> is resolved in \<^verbatim>\<open>c1\<close>, in \<^verbatim>\<open>c2\<close>, in
  \<^verbatim>\<open>c2\<close> after \<^verbatim>\<open>bind(S, singleton(rand))\<close> there (a new singleton of the same function
  \<^verbatim>\<open>rand\<close>), in \<^verbatim>\<open>c1\<close> and in \<^verbatim>\<open>c2\<close>.
\<close>

definition cloned_containers :: "int \<Rightarrow> expr" where
  "cloned_containers i =
     Seq (Assign 0 (Lit (Num i)))
    (Seq (Assign 4 rand)
    (Seq (Assign 1 (Singleton (Var 4)))
    (Seq (Assign 2 (CreateContainer (Lit Undefined)))
    (Seq (Assign 3 (CreateContainer (Var 2)))
         (ArrLit [WithContainer (Var 1) (Var 2),
                  WithContainer (Var 1) (Var 3),
                  WithContainer (Lam (Seq (Bind (Var 1) (Singleton (Var 4))) (Invoke (Var 1))))
                    (Var 3),
                  WithContainer (Var 1) (Var 2),
                  WithContainer (Var 1) (Var 3)])))))"

text \<open>The same containers, with \<^verbatim>\<open>S\<close> resolved in the clone first and in the source next.\<close>

definition clone_resolves_first :: "int \<Rightarrow> expr" where
  "clone_resolves_first i =
     Seq (Assign 0 (Lit (Num i)))
    (Seq (Assign 1 (Singleton rand))
    (Seq (Assign 2 (CreateContainer (Lit Undefined)))
    (Seq (Assign 3 (CreateContainer (Var 2)))
         (ArrLit [WithContainer (Var 1) (Var 3),
                  WithContainer (Var 1) (Var 2)]))))"

text \<open>
  \<^verbatim>\<open>B = dependency(() => 1)\<close>, \<^verbatim>\<open>K = dependency(B)\<close> and \<^verbatim>\<open>D = dependency(() => 2)\<close> in
  variables 1, 2 and 3, a container in variable 4, and in it \<^verbatim>\<open>bind(B, K); bind(D, B)\<close>.
\<close>

definition bind_to_itself :: expr where
  "bind_to_itself =
     Seq (Assign 1 (Dependency (Lam (Lit (Num 1)))))
    (Seq (Assign 2 (Dependency (Var 1)))
    (Seq (Assign 3 (Dependency (Lam (Lit (Num 2)))))
    (Seq (Assign 4 (CreateContainer (Lit Undefined)))
         (WithContainer (Lam (Seq (Bind (Var 1) (Var 2)) (Bind (Var 3) (Var 1)))) (Var 4)))))"

text \<open>
  The test of \<^verbatim>\<open>getCaller\<close>: \<^verbatim>\<open>d1\<close> and \<^verbatim>\<open>d2\<close> (variables 1 and 2) both resolve \<^verbatim>\<open>dep\<close>
  (variable 3), which answers 1 or 2 after its caller. The run resolves \<^verbatim>\<open>d1\<close>, \<^verbatim>\<open>d2\<close>
  and \<^verbatim>\<open>dep\<close> itself, and then calls \<^verbatim>\<open>getCaller\<close> outside of any resolution.
\<close>

definition callers :: expr where
  "callers =
     Seq (Assign 1 (Dependency (Lam (Invoke (Var 3)))))
    (Seq (Assign 2 (Dependency (Lam (Invoke (Var 3)))))
    (Seq (Assign 3 (Dependency (Lam
            (Seq (Assign 4 GetCaller)
                 (IfEq (Var 4) (Var 1) (Lit (Num 1))
                 (IfEq (Var 4) (Var 2) (Lit (Num 2)) (Lit Undefined)))))))
         (WithContainer
            (Lam (ArrLit [Invoke (Var 1), Invoke (Var 2), Invoke (Var 3), GetCaller]))
            (Lit Undefined))))"

text \<open>
  States for single calls of the library. \<open>outside\<close>: a dependency (function 1) and no
  ambient container. \<open>throwing\<close>: a function that throws 7.
\<close>

definition outside :: state where
  "outside = init\<lparr>funs := [UserFn (Lit (Num 1)), DependencyFn 0]\<rparr>"

definition throwing :: state where
  "throwing = init\<lparr>funs := [UserFn (Throw (Lit (Num 7)))]\<rparr>"

text \<open>\<open>resolving\<close>: the active container has two dependencies on its caller stack.\<close>

definition resolving :: state where
  "resolving = init\<lparr>globalContainerContext := Some 0,
     containers := [\<lparr>dependenciesMap = Map.empty, singletonsStateMap = 0, callersStack = [3, 5]\<rparr>],
     weakmaps := [Map.empty]\<rparr>"

text \<open>
  \<open>aliasing\<close>: \<^verbatim>\<open>B\<close> is function 1, with default \<^verbatim>\<open>() => 1\<close>, and is bound to function 2,
  \<^verbatim>\<open>() => 2\<close>, in the active container; \<^verbatim>\<open>D\<close> is function 4, with default \<^verbatim>\<open>() => 3\<close>.
\<close>

definition aliasing :: state where
  "aliasing = init\<lparr>globalContainerContext := Some 0,
     funs := [UserFn (Lit (Num 1)), DependencyFn 0, UserFn (Lit (Num 2)),
              UserFn (Lit (Num 3)), DependencyFn 3],
     containers := [\<lparr>dependenciesMap = [1 \<mapsto> 2], singletonsStateMap = 0, callersStack = []\<rparr>],
     weakmaps := [Map.empty]\<rparr>"

text \<open>
  \<open>failing\<close>: the dependency 3 resolves the dependency 1, whose function throws 7; the
  stack of the active container is not empty.
\<close>

definition failing :: state where
  "failing = init\<lparr>globalContainerContext := Some 0,
     funs := [UserFn (Throw (Lit (Num 7))), DependencyFn 0, UserFn (Invoke (Lit (Fn 1))),
              DependencyFn 2],
     containers := [\<lparr>dependenciesMap = Map.empty, singletonsStateMap = 0, callersStack = [9]\<rparr>],
     weakmaps := [Map.empty]\<rparr>"

text \<open>\<open>seeding\<close>: two dependencies, and nothing bound in the active container.\<close>

definition seeding :: state where
  "seeding = init\<lparr>globalContainerContext := Some 0,
     funs := [UserFn (Lit (Num 1)), DependencyFn 0, UserFn (Lit (Num 2)), DependencyFn 2],
     containers := [\<lparr>dependenciesMap = Map.empty, singletonsStateMap = 0, callersStack = []\<rparr>],
     weakmaps := [Map.empty]\<rparr>"

text \<open>
  \<open>cloned\<close>: container 1 is a clone of container 0 and is the active one; function 1 is
  the singleton function of \<^verbatim>\<open>() => 42\<close>. \<open>in_source\<close> calls that singleton function
  in the source, container 0, where a call of any other function would not return.
\<close>

definition cloned :: state where
  "cloned = (snd (createContainer (Some 0)
     (init\<lparr>funs := [UserFn (Lit (Num 42)), SingletonFn 0],
           containers := [\<lparr>dependenciesMap = Map.empty, singletonsStateMap = 0, callersStack = []\<rparr>],
           weakmaps := [Map.empty]\<rparr>)))\<lparr>globalContainerContext := Some 1\<rparr>"

definition never :: invoker where
  "never f s = None"

definition in_source :: "state \<Rightarrow> val result" where
  "in_source t = singletonFunction_self never 1 0 (t\<lparr>globalContainerContext := Some 0\<rparr>)"

text \<open>
  \<open>rebinding d h c\<close> is \<^verbatim>\<open>withContainer((bind) => bind(d, h), c)\<close>. \<open>state_of\<close> reads the
  state a call ended in.
\<close>

definition rebinding :: "fid \<Rightarrow> fid \<Rightarrow> cid \<Rightarrow> expr" where
  "rebinding d h c = WithContainer (Lam (Bind (Lit (Fn d)) (Lit (Fn h)))) (Lit (Cont c))"

definition state_of :: "'a result \<Rightarrow> state" where
  "state_of m = (case m of None \<Rightarrow> init | Some (r, t) \<Rightarrow> t)"

text \<open>
  \<open>sharing\<close>: function 0 is the counter, functions 1 and 3 are two singleton functions
  of it, and function 2 is the dependency of function 1; container 0 has nothing bound
  and an empty map of singleton states. \<open>shared1\<close> has its clone, container 1;
  \<open>shared2\<close> is the state after the dependency is resolved in container 0, \<open>shared3\<close>
  after it is resolved in the clone, \<open>shared4\<close> after the clone binds it to function 3.
\<close>

definition sharing :: state where
  "sharing = init\<lparr>funs := [UserFn (PostInc 0), SingletonFn 0, DependencyFn 1, SingletonFn 0],
     containers := [\<lparr>dependenciesMap = Map.empty, singletonsStateMap = 0, callersStack = []\<rparr>],
     weakmaps := [Map.empty],
     vars := (\<lambda>_. Num 0)\<rparr>"

definition shared1 :: state where
  "shared1 = snd (createContainer (Some 0) sharing)"

definition shared2 :: state where
  "shared2 = state_of (withContainer (call 3) 2 (Some 0) shared1)"

definition shared3 :: state where
  "shared3 = state_of (withContainer (call 2) 2 (Some 1) shared2)"

definition shared4 :: state where
  "shared4 = state_of (evaluate 1 (rebinding 2 3 1) shared3)"

section \<open>Frame lemmas\<close>

lemma frame_refl: "frame s s"
  by (simp add: frame_def)

lemma frame_trans: "frame s t \<Longrightarrow> frame t u \<Longrightarrow> frame s u"
  unfolding frame_def
  apply (intro conjI)
      apply simp
     apply (elim conjE exE)
     apply simp
    apply simp
   apply simp
  apply (intro allI impI)
  apply (elim conjE)
  subgoal for c
    apply (subgoal_tac "c < length (containers t)")
     apply (drule_tac x = c in spec)
     apply (drule_tac x = c in spec)
     apply (simp, blast)
    apply simp
    done
  done

lemma framed_None: "framed s None"
  by (simp add: framed_def)

lemma framed_Some: "framed s (Some (r, t)) = frame s t"
  by (simp add: framed_def)

lemma framed_seq:
  assumes "framed s m"
    and "\<And>ex s1. m = Some (Inl ex, s1) \<Longrightarrow> framed s1 (h ex s1)"
    and "\<And>v s1. m = Some (Inr v, s1) \<Longrightarrow> framed s1 (k v s1)"
  shows "framed s (case m of None \<Rightarrow> None | Some (Inl ex, s1) \<Rightarrow> h ex s1 | Some (Inr v, s1) \<Rightarrow> k v s1)"
proof (cases m)
  case None
  then show ?thesis by (simp add: framed_def)
next
  case (Some p)
  obtain r s1 where p: "p = (r, s1)" by (cases p)
  from assms(1) Some p have f1: "frame s s1" by (simp add: framed_def)
  show ?thesis
  proof (cases r)
    case (Inl ex)
    with assms(2) Some p have "framed s1 (h ex s1)" by simp
    with f1 Some p Inl show ?thesis
      by (auto simp: framed_def split: option.splits intro: frame_trans)
  next
    case (Inr v)
    with assms(3) Some p have "framed s1 (k v s1)" by simp
    with f1 Some p Inr show ?thesis
      by (auto simp: framed_def split: option.splits intro: frame_trans)
  qed
qed

lemma frame_new_fn: "frame s (snd (new_fn f s))"
  by (simp add: frame_def new_fn_def)

lemma frame_vars: "frame s (s\<lparr>vars := v\<rparr>)"
  by (simp add: frame_def)

lemma frame_createContainer: "frame s (snd (createContainer k s))"
  by (cases k) (simp_all add: frame_def createContainer_def nth_append)

lemma nth_upd:
  "j < length xs \<Longrightarrow> xs[i := g (xs ! i)] ! j = (if i = j then g (xs ! j) else xs ! j)"
  by auto

lemma frame_upd_deps:
  "frame s (upd_container c (\<lambda>k. k\<lparr>dependenciesMap := (dependenciesMap k)(a \<mapsto> b)\<rparr>) s)"
  by (auto simp add: frame_def upd_container_def nth_upd)

lemma frame_bind: "frame s (snd (bind d f s))"
  by (auto simp add: bind_def Let_def frame_refl frame_upd_deps split: sum.splits)


lemma frame_push_pop:
  assumes "frame (upd_container c (\<lambda>k. k\<lparr>callersStack := callersStack k @ [x]\<rparr>) s) t"
  shows "frame s (upd_container c (\<lambda>k. k\<lparr>callersStack := butlast (callersStack k)\<rparr>) t)"
  using assms
  apply (simp add: frame_def upd_container_def)
  apply (elim conjE)
  apply (intro allI impI)
  subgoal for ca
    apply (drule_tac x = ca in spec)
    apply (cases "ca = c")
     apply (simp_all add: nth_upd)
    done
  done

lemma framed_dependency_self:
  assumes "\<And>f t. framed t (invoke f t)"
  shows "framed s (dependency_self invoke self d s)"
proof (cases "the_context s")
  case (Inl e)
  then show ?thesis by (simp add: dependency_self_def framed_def frame_refl)
next
  case (Inr c)
  define s1 where "s1 = (case dependenciesMap (containers s ! c) self of
                    Some g \<Rightarrow> s
                  | None \<Rightarrow> upd_container c
                         (\<lambda>k. k\<lparr>dependenciesMap := (dependenciesMap k)(self \<mapsto> d)\<rparr>) s)"
  define depFn where "depFn = (case dependenciesMap (containers s ! c) self of
                    Some g \<Rightarrow> g | None \<Rightarrow> d)"
  define s2 where "s2 = upd_container c (\<lambda>k. k\<lparr>callersStack := callersStack k @ [self]\<rparr>) s1"
  have f1: "frame s s1"
    by (simp add: s1_def frame_refl frame_upd_deps split: option.splits)
  have eq: "dependency_self invoke self d s =
      (case invoke depFn s2 of None \<Rightarrow> None
       | Some (r, s3) \<Rightarrow> Some (r, upd_container c (\<lambda>k. k\<lparr>callersStack := butlast (callersStack k)\<rparr>) s3))"
    by (simp add: dependency_self_def Inr s1_def s2_def depFn_def split: option.splits)
  show ?thesis
  proof (cases "invoke depFn s2")
    case None
    with eq show ?thesis by (simp add: framed_def)
  next
    case (Some p)
    obtain r s3 where p: "p = (r, s3)" by (cases p)
    from assms [of s2 depFn] Some p have "frame s2 s3" by (simp add: framed_def)
    then have "frame s1 (upd_container c (\<lambda>k. k\<lparr>callersStack := butlast (callersStack k)\<rparr>) s3)"
      unfolding s2_def by (rule frame_push_pop)
    with f1 have "frame s (upd_container c (\<lambda>k. k\<lparr>callersStack := butlast (callersStack k)\<rparr>) s3)"
      by (rule frame_trans)
    with eq Some p show ?thesis by (simp add: framed_def)
  qed
qed

lemma frame_weakmaps_upd: "frame s (s\<lparr>weakmaps := (weakmaps s)[w := m]\<rparr>)"
  by (simp add: frame_def)

lemma framed_singletonFunction_self:
  assumes "\<And>f t. framed t (invoke f t)"
  shows "framed s (singletonFunction_self invoke self fn s)"
  using assms [of s fn]
  by (auto simp: singletonFunction_self_def framed_def frame_refl Let_def
      split: sum.splits option.splits intro: frame_trans [OF _ frame_weakmaps_upd])

lemma frame_gcc:
  "frame (s\<lparr>globalContainerContext := a\<rparr>) t \<Longrightarrow>
   frame s (t\<lparr>globalContainerContext := globalContainerContext s\<rparr>)"
  by (simp add: frame_def)

lemma framed_withContainer:
  assumes "\<And>f t. framed t (invoke f t)"
  shows "framed s (withContainer invoke fn ctx s)"
proof -
  obtain c s0 where cs: "(case ctx of None \<Rightarrow> createContainer None s | Some c \<Rightarrow> (c, s)) = (c, s0)"
    by (cases "(case ctx of None \<Rightarrow> createContainer None s | Some c \<Rightarrow> (c, s))")
  have f0: "frame s s0"
    using cs frame_createContainer [of s None] by (auto simp: frame_refl split: option.splits)
  then have g: "globalContainerContext s0 = globalContainerContext s"
    by (simp add: frame_def)
  show ?thesis
  proof (cases "invoke fn (s0\<lparr>globalContainerContext := Some c\<rparr>)")
    case None
    with cs show ?thesis by (simp add: withContainer_def framed_def)
  next
    case (Some p)
    obtain r s2 where p: "p = (r, s2)" by (cases p)
    from assms [of "s0\<lparr>globalContainerContext := Some c\<rparr>" fn] Some p
    have "frame (s0\<lparr>globalContainerContext := Some c\<rparr>) s2" by (simp add: framed_def)
    then have "frame s0 (s2\<lparr>globalContainerContext := globalContainerContext s0\<rparr>)"
      by (rule frame_gcc)
    with f0 have "frame s (s2\<lparr>globalContainerContext := globalContainerContext s0\<rparr>)"
      by (rule frame_trans)
    with cs Some p show ?thesis by (simp add: withContainer_def framed_def)
  qed
qed


lemma frame_new_fn_eq: "new_fn f s = (x, t) \<Longrightarrow> frame s t"
  using frame_new_fn [of s f] by simp

lemma frame_createContainer_eq: "createContainer k s = (x, t) \<Longrightarrow> frame s t"
  using frame_createContainer [of s k] by simp

lemma frame_bind_eq: "bind d f s = (x, t) \<Longrightarrow> frame s t"
  using frame_bind [of s d f] by simp

lemma frame_dependency_eq: "dependency f s = (x, t) \<Longrightarrow> frame s t"
  unfolding dependency_def by (rule frame_new_fn_eq)

lemma frame_singletonFunction_eq: "singletonFunction f s = (x, t) \<Longrightarrow> frame s t"
  unfolding singletonFunction_def by (rule frame_new_fn_eq)

lemma frame_singleton_eq: "singleton f s = (x, t) \<Longrightarrow> frame s t"
  unfolding singleton_def
  by (auto split: prod.splits
      intro: frame_trans [OF frame_singletonFunction_eq frame_dependency_eq])

lemmas frame_eqs = frame_new_fn_eq frame_createContainer_eq frame_bind_eq frame_dependency_eq
  frame_singletonFunction_eq frame_singleton_eq

lemma framed_bind: "framed s (Some (bind d f s))"
  by (cases "bind d f s") (simp add: framed_def frame_bind_eq)

lemmas framed_intros = framed_bind framed_dependency_self framed_singletonFunction_self framed_withContainer

lemma framed_evaluate:
  "framed s (evaluate n e s)"
  "framed s (evaluates n es s)"
  "framed s (call n f s)"
proof (induction n e s and n es s and n f s rule: evaluate_evaluates_call.induct)
  case (1 n v s)
  then show ?case by (simp add: framed_def frame_refl)
next
  case (2 n x s)
  then show ?case by (simp add: framed_def frame_refl)
next
  case (3 n x e s)
  then show ?case
    unfolding evaluate.simps
    by (intro framed_seq) (simp_all add: framed_Some frame_refl frame_vars)
next
  case (4 n x s)
  then show ?case by (simp add: framed_def frame_refl frame_vars split: val.splits)
next
  case (5 n e1 e2 s)
  then show ?case
    unfolding evaluate.simps
    by (intro framed_seq) (simp_all add: framed_Some frame_refl)
next
  case (6 n es s)
  then show ?case
    unfolding evaluate.simps
    by (intro framed_seq) (simp_all add: framed_Some frame_refl)
next
  case (7 n e1 e2 e3 e4 s)
  then show ?case
    unfolding evaluate.simps
    by (intro framed_seq) (simp_all add: framed_Some frame_refl)
next
  case (8 n b s)
  then show ?case
    by (auto simp: framed_def split: prod.splits dest: frame_eqs)
next
  case (9 n e s)
  then show ?case
    unfolding evaluate.simps
    by (intro framed_seq) (simp_all add: framed_Some frame_refl split: val.splits)
next
  case (10 n e s)
  then show ?case
    unfolding evaluate.simps
    by (intro framed_seq) (simp_all add: framed_Some frame_refl)
next
  case (11 n e1 e2 s)
  then show ?case
    unfolding evaluate.simps
    by (intro framed_seq) (simp_all add: framed_Some frame_refl)
next
  case (12 n e s)
  then show ?case
    unfolding evaluate.simps
    by (intro framed_seq)
      (auto simp: framed_Some frame_refl split: val.splits prod.splits dest: frame_eqs)
next
  case (13 n e s)
  then show ?case
    unfolding evaluate.simps
    by (intro framed_seq)
      (auto simp: framed_Some frame_refl split: val.splits prod.splits dest: frame_eqs)
next
  case (14 n e s)
  then show ?case
    unfolding evaluate.simps
    by (intro framed_seq)
      (auto simp: framed_Some frame_refl split: val.splits prod.splits dest: frame_eqs)
next
  case (15 n e1 e2 s)
  then show ?case
    unfolding evaluate.simps
    by (intro framed_seq)
      (auto simp: framed_Some frame_refl framed_intros split: val.splits prod.splits)
next
  case (16 n e1 e2 s)
  then show ?case
    unfolding evaluate.simps
    by (intro framed_seq)
      (auto simp: framed_Some frame_refl framed_intros split: val.splits prod.splits)
next
  case (17 n e s)
  then show ?case
    unfolding evaluate.simps
    by (intro framed_seq)
      (auto simp: framed_Some frame_refl split: val.splits prod.splits dest: frame_eqs)
next
  case (18 n s)
  then show ?case by (simp add: framed_def frame_refl)
next
  case (19 n s)
  then show ?case by (simp add: framed_def frame_refl)
next
  case (20 n e es s)
  then show ?case
    unfolding evaluates.simps
    by (intro framed_seq) (simp_all add: framed_Some frame_refl)
next
  case (21 f s)
  then show ?case by (simp add: framed_def)
next
  case (22 n f s)
  then show ?case
    by (simp add: framed_Some frame_refl framed_intros split: option.splits fn.splits)
qed

lemma frame_call: "call n f s = Some (r, s') \<Longrightarrow> frame s s'"
  using framed_evaluate(3) [of s n f] by (simp add: framed_def)

lemma frame_entry:
  assumes "frame s t" and "c < length (containers s)"
    and "dependenciesMap (containers s ! c) D = Some g"
  shows "D \<in> dom (dependenciesMap (containers t ! c))"
proof -
  from assms(1,2)
  have "dom (dependenciesMap (containers s ! c)) \<subseteq> dom (dependenciesMap (containers t ! c))"
    by (simp add: frame_def)
  with assms(3) show ?thesis by blast
qed

subsection \<open>Resolving a singleton dependency\<close>

lemma frame_withContainer_call:
  "withContainer (call n) f ctx s = Some (r, s') \<Longrightarrow> frame s s'"
  using framed_withContainer [of "call n" s f ctx, OF framed_evaluate(3)]
  by (simp add: framed_def)

lemma frame_fn_at: "frame s s' \<Longrightarrow> fn_at s f = Some x \<Longrightarrow> fn_at s' f = Some x"
  by (auto simp: frame_def fn_at_def nth_append split: if_splits)

lemma fn_at_gcc: "fn_at (s\<lparr>globalContainerContext := x\<rparr>) f = fn_at s f"
  by (simp add: fn_at_def)

lemma fn_at_upd_container: "fn_at (upd_container c g s) f = fn_at s f"
  by (simp add: fn_at_def upd_container_def)

lemma fn_at_weakmaps: "fn_at (s\<lparr>weakmaps := x\<rparr>) f = fn_at s f"
  by (simp add: fn_at_def)

lemmas fn_at_same = fn_at_gcc fn_at_upd_container fn_at_weakmaps

lemma resolve_cached:
  assumes "c < length (containers s)"
    and "dependenciesMap (containers s ! c) S \<in> {None, Some sf}"
    and "fn_at s S = Some (DependencyFn sf)" and "fn_at s sf = Some (SingletonFn g)"
    and "(weakmaps s ! singletonsStateMap (containers s ! c)) sf = Some v"
  shows "withContainer (call (Suc (Suc m))) S (Some c) s =
           Some (Inr v, upd_container c
                          (\<lambda>k. k\<lparr>dependenciesMap := (dependenciesMap k)(S \<mapsto> sf)\<rparr>) s)"
proof -
  define t where "t = s\<lparr>globalContainerContext := Some c\<rparr>"
  define t1 where "t1 = upd_container c
     (\<lambda>k. k\<lparr>dependenciesMap := (dependenciesMap k)(S \<mapsto> sf)\<rparr>) t"
  define t2 where "t2 = upd_container c (\<lambda>k. k\<lparr>callersStack := callersStack k @ [S]\<rparr>) t1"
  have same: "upd_container c (\<lambda>k. k\<lparr>callersStack := callersStack k @ [S]\<rparr>) t = t2"
    if "dependenciesMap (containers s ! c) S = Some sf"
  proof -
    from that have "(dependenciesMap (containers s ! c))(S \<mapsto> sf)
        = dependenciesMap (containers s ! c)"
      by (simp add: map_upd_triv)
    then show ?thesis
      by (simp add: t2_def t1_def t_def upd_container_def)
  qed
  have hit: "singletonFunction_self (call m) sf g t2 = Some (Inr v, t2)"
    using assms(1,5)
    by (simp add: singletonFunction_self_def the_context_def assertContainerContext_def
        t2_def t1_def t_def upd_container_def)
  from assms(4) have "fn_at t2 sf = Some (SingletonFn g)"
    by (simp add: t2_def t1_def t_def fn_at_same)
  with hit have c2: "call (Suc m) sf t2 = Some (Inr v, t2)"
    by simp
  have pop: "upd_container c (\<lambda>k. k\<lparr>callersStack := butlast (callersStack k)\<rparr>) t2 = t1"
    using assms(1) by (simp add: t2_def t1_def t_def upd_container_def)
  have "dependency_self (call (Suc m)) S sf t =
      (case call (Suc m) sf t2 of None \<Rightarrow> None
       | Some (r, u) \<Rightarrow> Some (r, upd_container c
            (\<lambda>k. k\<lparr>callersStack := butlast (callersStack k)\<rparr>) u))"
    using assms(2) same
    by (auto simp add: dependency_self_def the_context_def assertContainerContext_def
        t_def t1_def t2_def simp del: call.simps)
  with c2 pop have "dependency_self (call (Suc m)) S sf t = Some (Inr v, t1)"
    by (simp del: call.simps)
  moreover from assms(3) have "fn_at t S = Some (DependencyFn sf)"
    by (simp add: t_def fn_at_same)
  ultimately have "call (Suc (Suc m)) S t = Some (Inr v, t1)"
    by simp
  then show ?thesis
    by (simp add: withContainer_def t_def [symmetric])
      (simp add: t1_def t_def upd_container_def)
qed

lemma singleton_self_caches:
  assumes "globalContainerContext s = Some k"
    and "singletonsStateMap (containers s ! k) < length (weakmaps s)"
    and "singletonFunction_self (call n) self fn s = Some (Inr v, s')"
  shows "(weakmaps s' ! singletonsStateMap (containers s ! k)) self = Some v"
proof (cases "(weakmaps s ! singletonsStateMap (containers s ! k)) self")
  case (Some v')
  with assms show ?thesis
    by (simp add: singletonFunction_self_def the_context_def assertContainerContext_def)
next
  case None
  with assms obtain s1 where s1: "call n fn s = Some (Inr v, s1)"
    and s': "s' = s1\<lparr>weakmaps := (weakmaps s1)[singletonsStateMap (containers s ! k) :=
                (weakmaps s1 ! singletonsStateMap (containers s ! k))(self \<mapsto> v)]\<rparr>"
    by (auto simp: singletonFunction_self_def the_context_def assertContainerContext_def
        Let_def split: option.splits sum.splits)
  from frame_call [OF s1] assms(2)
  have "singletonsStateMap (containers s ! k) < length (weakmaps s1)"
    by (simp add: frame_def)
  with s' show ?thesis by simp
qed

lemma resolve_caches:
  assumes "c < length (containers s)"
    and "dependenciesMap (containers s ! c) S \<in> {None, Some sf}"
    and "fn_at s S = Some (DependencyFn sf)" and "fn_at s sf = Some (SingletonFn g)"
    and "singletonsStateMap (containers s ! c) < length (weakmaps s)"
    and "withContainer (call n) S (Some c) s = Some (Inr v, s')"
  shows "(weakmaps s' ! singletonsStateMap (containers s ! c)) sf = Some v"
proof -
  define t where "t = s\<lparr>globalContainerContext := Some c\<rparr>"
  from assms(6) obtain u where u: "call n S t = Some (Inr v, u)"
    and s': "s' = u\<lparr>globalContainerContext := globalContainerContext s\<rparr>"
    by (auto simp: withContainer_def t_def split: option.splits)
  from u obtain n1 where n: "n = Suc n1" by (cases n) simp_all
  define t2 where "t2 = upd_container c (\<lambda>k. k\<lparr>callersStack := callersStack k @ [S]\<rparr>)
     (upd_container c (\<lambda>k. k\<lparr>dependenciesMap := (dependenciesMap k)(S \<mapsto> sf)\<rparr>) t)"
  have t2eq: "upd_container c (\<lambda>k. k\<lparr>callersStack := callersStack k @ [S]\<rparr>) t = t2"
    if "dependenciesMap (containers s ! c) S = Some sf"
  proof -
    from that have "(dependenciesMap (containers s ! c))(S \<mapsto> sf)
        = dependenciesMap (containers s ! c)"
      by (simp add: map_upd_triv)
    then show ?thesis
      by (simp add: t2_def t_def upd_container_def)
  qed
  from assms(3) have fS: "fn_at t S = Some (DependencyFn sf)"
    by (simp add: t_def fn_at_same)
  have ds: "dependency_self (call n1) S sf t =
      (case call n1 sf t2 of None \<Rightarrow> None
       | Some (r, u) \<Rightarrow> Some (r, upd_container c
            (\<lambda>k. k\<lparr>callersStack := butlast (callersStack k)\<rparr>) u))"
    using assms(2) t2eq
    by (auto simp add: dependency_self_def the_context_def assertContainerContext_def
        t_def t2_def simp del: call.simps)
  from u n fS ds obtain u2 where u2: "call n1 sf t2 = Some (Inr v, u2)"
    and u': "u = upd_container c (\<lambda>k. k\<lparr>callersStack := butlast (callersStack k)\<rparr>) u2"
    by (auto split: option.splits)
  from u2 obtain n2 where n1: "n1 = Suc n2" by (cases n1) simp_all
  from assms(4) have fsf: "fn_at t2 sf = Some (SingletonFn g)"
    by (simp add: t2_def t_def fn_at_same)
  from u2 n1 fsf have ss: "singletonFunction_self (call n2) sf g t2 = Some (Inr v, u2)"
    by simp
  have g2: "globalContainerContext t2 = Some c"
    by (simp add: t2_def t_def upd_container_def)
  have w2: "singletonsStateMap (containers t2 ! c) = singletonsStateMap (containers s ! c)"
    using assms(1) by (simp add: t2_def t_def upd_container_def)
  have l2: "weakmaps t2 = weakmaps s"
    by (simp add: t2_def t_def upd_container_def)
  from singleton_self_caches [OF g2 _ ss] w2 l2 assms(5)
  have "(weakmaps u2 ! singletonsStateMap (containers s ! c)) sf = Some v"
    by simp
  with u' s' show ?thesis
    by (simp add: upd_container_def)
qed


lemma governing_new_fn:
  "(case fn_at (s\<lparr>funs := funs s @ [UserFn b]\<rparr>) h of
      Some (DependencyFn tag) \<Rightarrow> A tag | _ \<Rightarrow> B) =
   (case fn_at s h of Some (DependencyFn tag) \<Rightarrow> A tag | _ \<Rightarrow> B)"
  by (auto simp: fn_at_def nth_append split: fn.splits)

lemma fn_at_new_fn:
  "fn_at s f = Some x \<Longrightarrow> fn_at (s\<lparr>funs := funs s @ [y]\<rparr>) f = Some x"
  by (auto simp: fn_at_def nth_append split: if_splits)

section \<open>The claims\<close>

lemmas lib_defs = new_fn_def dependency_def singletonFunction_def singleton_def withContainer_def
  createContainer_def fn_at_def dependency_self_def singletonFunction_self_def the_context_def
  assertContainerContext_def upd_container_def bind_def getCaller_def

subsection \<open>C1: transient and singleton dependencies\<close>

text \<open>
  Claim C1. With a counter that yields \<open>i\<close> and then \<open>i + 1\<close> (the claim's counter is
  \<open>i = 0\<close>): for \<^verbatim>\<open>D = dependency(rand)\<close>, \<^verbatim>\<open>withContainer(() => [D(), D()])\<close> returns
  \<open>[i, i + 1]\<close>; for \<^verbatim>\<open>S = singleton(rand)\<close>, \<^verbatim>\<open>withContainer(() => [S(), S()])\<close> returns
  \<open>[i, i]\<close>; and two separate \<^verbatim>\<open>withContainer(() => S())\<close>, each with a container of its
  own, return \<open>i\<close> and \<open>i + 1\<close>. The counter ends at \<open>i + 2\<close> in the first run (the
  function is called for each resolution) and at \<open>i + 1\<close> in the second (it is called
  once). Every bound on the depth of calls from 3 (from 4 for the singleton) gives
  the result.
\<close>

theorem transient_and_singleton_scenarios:
  "outcome (evaluate (Suc (Suc (Suc n))) (transient_twice i) init)
     = Some (Inr (Arr [Num i, Num (i + 1)])) \<and>
   final_var 0 (evaluate (Suc (Suc (Suc n))) (transient_twice i) init) = Some (Num (i + 2)) \<and>
   outcome (evaluate (Suc (Suc (Suc (Suc n)))) (singleton_twice i) init)
     = Some (Inr (Arr [Num i, Num i])) \<and>
   final_var 0 (evaluate (Suc (Suc (Suc (Suc n)))) (singleton_twice i) init) = Some (Num (i + 1)) \<and>
   outcome (evaluate (Suc (Suc (Suc (Suc n)))) (singleton_two_runs i) init)
     = Some (Inr (Arr [Num i, Num (i + 1)]))"
proof (intro conjI)
  show "outcome (evaluate (Suc (Suc (Suc n))) (transient_twice i) init)
     = Some (Inr (Arr [Num i, Num (i + 1)]))"
    by (simp add: outcome_def transient_twice_def rand_def init_def lib_defs)
  show "final_var 0 (evaluate (Suc (Suc (Suc n))) (transient_twice i) init) = Some (Num (i + 2))"
    by (simp add: final_var_def transient_twice_def rand_def init_def lib_defs)
  show "outcome (evaluate (Suc (Suc (Suc (Suc n)))) (singleton_twice i) init)
     = Some (Inr (Arr [Num i, Num i]))"
    by (simp add: outcome_def singleton_twice_def rand_def init_def lib_defs)
  show "final_var 0 (evaluate (Suc (Suc (Suc (Suc n)))) (singleton_twice i) init)
     = Some (Num (i + 1))"
    by (simp add: final_var_def singleton_twice_def rand_def init_def lib_defs)
  show "outcome (evaluate (Suc (Suc (Suc (Suc n)))) (singleton_two_runs i) init)
     = Some (Inr (Arr [Num i, Num (i + 1)]))"
    by (simp add: outcome_def singleton_two_runs_def rand_def init_def lib_defs)
qed

subsection \<open>C2: a clone shares the singleton states until it rebinds\<close>

text \<open>
  Claim C2. Let \<^verbatim>\<open>S\<close> be a singleton dependency (the dependency of the singleton function
  \<open>sf\<close>) that the container \<open>c1\<close> has not bound to anything else, and \<open>c2\<close> the clone
  \<^verbatim>\<open>createContainer(c1)\<close>: it has the bindings of \<open>c1\<close> and the very map of singleton
  states of \<open>c1\<close>. Let \<^verbatim>\<open>withContainer(S, c1)\<close> return \<open>v\<close>, with \<^verbatim>\<open>S\<close> still bound to
  \<open>sf\<close> in \<open>c1\<close> afterwards and not rebound in \<open>c2\<close>. Then
  \<^item> \<^verbatim>\<open>withContainer(S, c2)\<close> returns the same \<open>v\<close>, at every bound from 2 on the depth
    of calls, so without a call of the wrapped function;
  \<^item> \<^verbatim>\<open>withContainer((bind) => bind(S, h), c2)\<close> returns, for any function \<open>h\<close>;
  \<^item> after it, \<^verbatim>\<open>withContainer(S, c2)\<close> is the call of the function that governs \<open>h\<close>
    (\<open>h\<close> itself unless it is a dependency), made in \<open>c2\<close> with \<^verbatim>\<open>S\<close> pushed on its
    caller stack; when \<open>h\<close> is a singleton function with no state in the shared map,
    it is the value that the function wrapped by \<open>h\<close> returns now;
  \<^item> \<^verbatim>\<open>withContainer(S, c1)\<close> still returns \<open>v\<close>.

  In the run of the test, where the new function is another singleton of the same
  counter, the five results are \<open>i\<close>, \<open>i\<close>, \<open>i + 1\<close>, \<open>i\<close> and \<open>i + 1\<close> (for \<open>c1\<close>, \<open>c2\<close>,
  \<open>c2\<close> on rebinding, \<open>c1\<close>, \<open>c2\<close>).
\<close>

theorem clone_shares_until_rebound:
  assumes c1: "c1 < length (containers s0)"
    and w: "singletonsStateMap (containers s0 ! c1) < length (weakmaps s0)"
    and S: "fn_at s0 S = Some (DependencyFn sf)"
    and sf: "fn_at s0 sf = Some (SingletonFn g)"
    and e: "dependenciesMap (containers s0 ! c1) S \<in> {None, Some sf}"
    and clone: "createContainer (Some c1) s0 = (c2, s1)"
    and runA: "withContainer (call n) S (Some c1) s1 = Some (Inr v, s2)"
    and k1: "dependenciesMap (containers s2 ! c1) S = Some sf"
    and k2: "dependenciesMap (containers s2 ! c2) S \<in> {None, Some sf}"
  shows "outcome (evaluate (Suc (Suc (Suc (Suc b)))) (cloned_containers i) init)
           = Some (Inr (Arr [Num i, Num i, Num (i + 1), Num i, Num (i + 1)])) \<and>
         containers s1 ! c2 =
           \<lparr>dependenciesMap = dependenciesMap (containers s0 ! c1),
            singletonsStateMap = singletonsStateMap (containers s0 ! c1),
            callersStack = []\<rparr> \<and>
         (\<exists>s3 s4 t.
            (\<forall>m. withContainer (call (Suc (Suc m))) S (Some c2) s2 = Some (Inr v, s3)) \<and>
            (\<forall>k. evaluate (Suc k) (rebinding S h c2) s3 = Some (Inr Undefined, s4)) \<and>
            globalContainerContext t = Some c2 \<and>
            callersStack (containers t ! c2) = callersStack (containers s4 ! c2) @ [S] \<and>
            (\<forall>m. withContainer (call (Suc m)) S (Some c2) s4 =
               (case call m (case fn_at s3 h of
                               Some (DependencyFn tag) \<Rightarrow>
                                 (case dependenciesMap (containers s3 ! c2) h of
                                    Some depFn \<Rightarrow> depFn | None \<Rightarrow> tag)
                             | _ \<Rightarrow> h) t of
                  None \<Rightarrow> None
                | Some (r, u) \<Rightarrow>
                    Some (r, (upd_container c2
                                (\<lambda>k. k\<lparr>callersStack := butlast (callersStack k)\<rparr>) u)
                             \<lparr>globalContainerContext := globalContainerContext s4\<rparr>))) \<and>
            (fn_at s0 h = Some (SingletonFn g') \<and>
             (weakmaps s2 ! singletonsStateMap (containers s0 ! c1)) h = None \<longrightarrow>
               (\<forall>m x u. call m g' t = Some (Inr x, u) \<longrightarrow>
                  (\<exists>s5. withContainer (call (Suc (Suc m))) S (Some c2) s4 = Some (Inr x, s5)))) \<and>
            (\<forall>m. \<exists>s5. withContainer (call (Suc (Suc m))) S (Some c1) s4 = Some (Inr v, s5)))"
proof -
  define w0 where "w0 = singletonsStateMap (containers s0 ! c1)"
  \<comment> \<open>the clone\<close>
  from clone have c2: "c2 = length (containers s0)"
    and s1: "s1 = s0\<lparr>containers := containers s0 @
                [\<lparr>dependenciesMap = dependenciesMap (containers s0 ! c1),
                  singletonsStateMap = singletonsStateMap (containers s0 ! c1),
                  callersStack = []\<rparr>]\<rparr>"
    by (simp_all add: createContainer_def)
  have new: "containers s1 ! c2 =
           \<lparr>dependenciesMap = dependenciesMap (containers s0 ! c1),
            singletonsStateMap = singletonsStateMap (containers s0 ! c1),
            callersStack = []\<rparr>"
    by (simp add: s1 c2)
  from c1 have ne: "c1 \<noteq> c2" by (simp add: c2)
  from c1 have l1: "c1 < length (containers s1)" "c2 < length (containers s1)"
    by (simp_all add: s1 c2)
  from c1 have old: "containers s1 ! c1 = containers s0 ! c1"
    by (simp add: s1 nth_append)
  have f1: "fn_at s1 = fn_at s0"
    by (rule ext) (simp add: s1 fn_at_def)
  have wm1: "weakmaps s1 = weakmaps s0" by (simp add: s1)
  \<comment> \<open>the resolution in the source\<close>
  from runA have fr: "frame s1 s2" by (rule frame_withContainer_call)
  from resolve_caches [OF l1(1) _ _ _ _ runA, of sf g] e S sf w old f1 wm1
  have cached: "(weakmaps s2 ! w0) sf = Some v"
    by (simp add: w0_def)
  from fr l1 have l2: "c1 < length (containers s2)" "c2 < length (containers s2)"
    by (simp_all add: frame_def)
  from fr l1 old new have w2: "singletonsStateMap (containers s2 ! c1) = w0"
    "singletonsStateMap (containers s2 ! c2) = w0"
    by (simp_all add: frame_def w0_def)
  from fr S sf f1 have f2: "fn_at s2 S = Some (DependencyFn sf)" "fn_at s2 sf = Some (SingletonFn g)"
    by (simp_all add: frame_fn_at)
  \<comment> \<open>the resolution in the clone\<close>
  define s3 where "s3 = upd_container c2
     (\<lambda>k. k\<lparr>dependenciesMap := (dependenciesMap k)(S \<mapsto> sf)\<rparr>) s2"
  have r3: "withContainer (call (Suc (Suc m))) S (Some c2) s2 = Some (Inr v, s3)" for m
    unfolding s3_def using l2(2) k2 f2 cached w2(2)
    by (intro resolve_cached) simp_all
  have f3: "fn_at s3 = fn_at s2"
    by (rule ext) (simp add: s3_def fn_at_same)
  have wm3: "weakmaps s3 = weakmaps s2" by (simp add: s3_def upd_container_def)
  have l3: "c1 < length (containers s3)" "c2 < length (containers s3)"
    using l2 by (simp_all add: s3_def upd_container_def)
  have c13: "containers s3 ! c1 = containers s2 ! c1"
    using ne by (simp add: s3_def upd_container_def)
  have w3: "singletonsStateMap (containers s3 ! c2) = w0"
    using l2(2) w2(2) by (simp add: s3_def upd_container_def)
  \<comment> \<open>the rebinding in the clone\<close>
  define h' where "h' = (case fn_at s3 h of
                               Some (DependencyFn tag) \<Rightarrow>
                                 (case dependenciesMap (containers s3 ! c2) h of
                                    Some depFn \<Rightarrow> depFn | None \<Rightarrow> tag)
                             | _ \<Rightarrow> h)"
  define s4 where "s4 = upd_container c2
     (\<lambda>k. k\<lparr>dependenciesMap := (dependenciesMap k)(S \<mapsto> h')\<rparr>)
     (s3\<lparr>funs := funs s3 @ [UserFn (Bind (Lit (Fn S)) (Lit (Fn h)))]\<rparr>)"
  define sx where "sx = s3\<lparr>funs := funs s3 @ [UserFn (Bind (Lit (Fn S)) (Lit (Fn h)))],
                      globalContainerContext := Some c2\<rparr>"
  define hx where "hx = (case fn_at sx h of
                               Some (DependencyFn tag) \<Rightarrow>
                                 (case dependenciesMap (containers sx ! c2) h of
                                    Some depFn \<Rightarrow> depFn | None \<Rightarrow> tag)
                             | _ \<Rightarrow> h)"
  have gsx: "globalContainerContext sx = Some c2" by (simp add: sx_def)
  have b0: "bind S h sx = (Inr Undefined,
      upd_container c2 (\<lambda>k. k\<lparr>dependenciesMap := (dependenciesMap k)(S \<mapsto> hx)\<rparr>) sx)"
    by (simp add: bind_def the_context_def assertContainerContext_def gsx hx_def)
  have cs: "containers sx = containers s3" by (simp add: sx_def)
  have fx: "fn_at sx h = fn_at (s3\<lparr>funs := funs s3 @ [UserFn (Bind (Lit (Fn S)) (Lit (Fn h)))]\<rparr>) h"
    by (simp add: sx_def fn_at_gcc)
  have "hx = h'"
    unfolding hx_def h'_def cs fx by (rule governing_new_fn)
  with b0 have b: "bind S h sx = (Inr Undefined, s4\<lparr>globalContainerContext := Some c2\<rparr>)"
    by (simp add: sx_def s4_def upd_container_def)
  have r4: "evaluate (Suc k) (rebinding S h c2) s3 = Some (Inr Undefined, s4)" for k
    using b
    by (simp add: rebinding_def new_fn_def withContainer_def fn_at_def sx_def)
      (simp add: s4_def upd_container_def)
  have f4: "fn_at s3 f = Some x \<Longrightarrow> fn_at s4 f = Some x" for f x
    by (simp add: s4_def fn_at_same fn_at_new_fn)
  have wm4: "weakmaps s4 = weakmaps s2"
    by (simp add: s4_def upd_container_def wm3)
  have l4: "c1 < length (containers s4)" "c2 < length (containers s4)"
    using l3 by (simp_all add: s4_def upd_container_def)
  have c14: "containers s4 ! c1 = containers s2 ! c1"
    using ne c13 by (simp add: s4_def upd_container_def)
  have e4: "dependenciesMap (containers s4 ! c2) S = Some h'"
    using l3(2) by (simp add: s4_def upd_container_def)
  have w4: "singletonsStateMap (containers s4 ! c2) = w0"
    using l3(2) w3 by (simp add: s4_def upd_container_def)
  \<comment> \<open>the clone resolves through the new function\<close>
  define t where "t = upd_container c2 (\<lambda>k. k\<lparr>callersStack := callersStack k @ [S]\<rparr>)
     (s4\<lparr>globalContainerContext := Some c2\<rparr>)"
  from f2(1) have fS4: "fn_at (s4\<lparr>globalContainerContext := Some c2\<rparr>) S = Some (DependencyFn sf)"
    by (simp add: fn_at_same f4 f3)
  have r5: "withContainer (call (Suc m)) S (Some c2) s4 =
               (case call m h' t of
                  None \<Rightarrow> None
                | Some (r, u) \<Rightarrow>
                    Some (r, (upd_container c2
                                (\<lambda>k. k\<lparr>callersStack := butlast (callersStack k)\<rparr>) u)
                             \<lparr>globalContainerContext := globalContainerContext s4\<rparr>))" for m
    using e4 fS4
    by (auto simp add: withContainer_def dependency_self_def the_context_def
        assertContainerContext_def t_def upd_container_def split: option.splits)
  \<comment> \<open>a new singleton function calls the function it wraps\<close>
  have r6: "\<exists>s5. withContainer (call (Suc (Suc m))) S (Some c2) s4 = Some (Inr x, s5)"
    if hs: "fn_at s0 h = Some (SingletonFn g')" and hn: "(weakmaps s2 ! w0) h = None"
      and run: "call m g' t = Some (Inr x, u)" for m x u
  proof -
    from hs f1 fr have "fn_at s2 h = Some (SingletonFn g')"
      by (simp add: frame_fn_at)
    then have h3: "fn_at s3 h = Some (SingletonFn g')" by (simp add: f3)
    then have hh: "h' = h" by (simp add: h'_def)
    from h3 have ht: "fn_at t h = Some (SingletonFn g')"
      by (simp add: t_def fn_at_same f4)
    have gt: "globalContainerContext t = Some c2"
      by (simp add: t_def upd_container_def)
    have wt: "singletonsStateMap (containers t ! c2) = w0"
      using l4(2) w4 by (simp add: t_def upd_container_def)
    have mt: "weakmaps t = weakmaps s2"
      by (simp add: t_def upd_container_def wm4)
    from gt wt mt hn run
    have "\<exists>u'. singletonFunction_self (call m) h g' t = Some (Inr x, u')"
      by (simp add: singletonFunction_self_def the_context_def assertContainerContext_def)
    with ht have "\<exists>u'. call (Suc m) h' t = Some (Inr x, u')"
      by (simp add: hh)
    with r5 [of "Suc m"] show ?thesis
      by (auto simp del: call.simps)
  qed
  \<comment> \<open>the source still has its value\<close>
  have r7: "\<exists>s5. withContainer (call (Suc (Suc m))) S (Some c1) s4 = Some (Inr v, s5)" for m
  proof -
    have "withContainer (call (Suc (Suc m))) S (Some c1) s4 =
           Some (Inr v, upd_container c1
                          (\<lambda>k. k\<lparr>dependenciesMap := (dependenciesMap k)(S \<mapsto> sf)\<rparr>) s4)"
      using l4(1) k1 c14 f2 f3 f4 cached w2(1) wm4
      by (intro resolve_cached) simp_all
    then show ?thesis by blast
  qed
  have gt: "globalContainerContext t = Some c2"
    by (simp add: t_def upd_container_def)
  have st: "callersStack (containers t ! c2) = callersStack (containers s4 ! c2) @ [S]"
    using l4(2) by (simp add: t_def upd_container_def)
  from r3 r4 gt st r5 r6 r7 have
    "(\<forall>m. withContainer (call (Suc (Suc m))) S (Some c2) s2 = Some (Inr v, s3)) \<and>
     (\<forall>k. evaluate (Suc k) (rebinding S h c2) s3 = Some (Inr Undefined, s4)) \<and>
     globalContainerContext t = Some c2 \<and>
     callersStack (containers t ! c2) = callersStack (containers s4 ! c2) @ [S] \<and>
     (\<forall>m. withContainer (call (Suc m)) S (Some c2) s4 =
               (case call m h' t of
                  None \<Rightarrow> None
                | Some (r, u) \<Rightarrow>
                    Some (r, (upd_container c2
                                (\<lambda>k. k\<lparr>callersStack := butlast (callersStack k)\<rparr>) u)
                             \<lparr>globalContainerContext := globalContainerContext s4\<rparr>))) \<and>
     (fn_at s0 h = Some (SingletonFn g') \<and> (weakmaps s2 ! w0) h = None \<longrightarrow>
               (\<forall>m x u. call m g' t = Some (Inr x, u) \<longrightarrow>
                  (\<exists>s5. withContainer (call (Suc (Suc m))) S (Some c2) s4 = Some (Inr x, s5)))) \<and>
     (\<forall>m. \<exists>s5. withContainer (call (Suc (Suc m))) S (Some c1) s4 = Some (Inr v, s5))"
    by blast
  then have "\<exists>s3 s4 t.
            (\<forall>m. withContainer (call (Suc (Suc m))) S (Some c2) s2 = Some (Inr v, s3)) \<and>
            (\<forall>k. evaluate (Suc k) (rebinding S h c2) s3 = Some (Inr Undefined, s4)) \<and>
            globalContainerContext t = Some c2 \<and>
            callersStack (containers t ! c2) = callersStack (containers s4 ! c2) @ [S] \<and>
            (\<forall>m. withContainer (call (Suc m)) S (Some c2) s4 =
               (case call m (case fn_at s3 h of
                               Some (DependencyFn tag) \<Rightarrow>
                                 (case dependenciesMap (containers s3 ! c2) h of
                                    Some depFn \<Rightarrow> depFn | None \<Rightarrow> tag)
                             | _ \<Rightarrow> h) t of
                  None \<Rightarrow> None
                | Some (r, u) \<Rightarrow>
                    Some (r, (upd_container c2
                                (\<lambda>k. k\<lparr>callersStack := butlast (callersStack k)\<rparr>) u)
                             \<lparr>globalContainerContext := globalContainerContext s4\<rparr>))) \<and>
            (fn_at s0 h = Some (SingletonFn g') \<and>
             (weakmaps s2 ! singletonsStateMap (containers s0 ! c1)) h = None \<longrightarrow>
               (\<forall>m x u. call m g' t = Some (Inr x, u) \<longrightarrow>
                  (\<exists>s5. withContainer (call (Suc (Suc m))) S (Some c2) s4 = Some (Inr x, s5)))) \<and>
            (\<forall>m. \<exists>s5. withContainer (call (Suc (Suc m))) S (Some c1) s4 = Some (Inr v, s5))"
    unfolding h'_def w0_def by (intro exI [of _ s3] exI [of _ s4] exI [of _ t])
  moreover
  have "outcome (evaluate (Suc (Suc (Suc (Suc b)))) (cloned_containers i) init)
           = Some (Inr (Arr [Num i, Num i, Num (i + 1), Num i, Num (i + 1)]))"
    by (simp add: outcome_def cloned_containers_def rand_def init_def lib_defs)
  ultimately show ?thesis using new by (intro conjI)
qed

theorem clone_shares_until_rebound_witness:
  "0 < length (containers sharing) \<and>
   singletonsStateMap (containers sharing ! 0) < length (weakmaps sharing) \<and>
   fn_at sharing 2 = Some (DependencyFn 1) \<and> fn_at sharing 1 = Some (SingletonFn 0) \<and>
   dependenciesMap (containers sharing ! 0) 2 \<in> {None, Some 1} \<and>
   createContainer (Some 0) sharing = (1, shared1) \<and>
   withContainer (call 3) 2 (Some 0) shared1 = Some (Inr (Num 0), shared2) \<and>
   dependenciesMap (containers shared2 ! 0) 2 = Some 1 \<and>
   dependenciesMap (containers shared2 ! 1) 2 \<in> {None, Some 1} \<and>
   fn_at sharing 3 = Some (SingletonFn 0) \<and>
   (weakmaps shared2 ! singletonsStateMap (containers sharing ! 0)) 3 = None \<and>
   outcome (withContainer (call 2) 2 (Some 1) shared2) = Some (Inr (Num 0)) \<and>
   outcome (evaluate 1 (rebinding 2 3 1) shared3) = Some (Inr Undefined) \<and>
   outcome (withContainer (call 3) 2 (Some 1) shared4) = Some (Inr (Num 1)) \<and>
   outcome (withContainer (call 2) 2 (Some 0) shared4) = Some (Inr (Num 0))"
proof -
  have h: "0 < length (containers sharing)"
    "singletonsStateMap (containers sharing ! 0) < length (weakmaps sharing)"
    "fn_at sharing 2 = Some (DependencyFn 1)" "fn_at sharing 1 = Some (SingletonFn 0)"
    "dependenciesMap (containers sharing ! 0) 2 \<in> {None, Some 1}"
    "fn_at sharing 3 = Some (SingletonFn 0)"
    by (simp_all add: sharing_def init_def fn_at_def)
  have cl: "createContainer (Some 0) sharing = (1, shared1)"
    by (simp add: shared1_def sharing_def init_def createContainer_def)
  obtain s2 where run: "withContainer (call 3) 2 (Some 0) shared1 = Some (Inr (Num 0), s2)"
    and k1: "dependenciesMap (containers s2 ! 0) 2 = Some 1"
    and k2: "dependenciesMap (containers s2 ! 1) 2 \<in> {None, Some 1}"
    and n3: "(weakmaps s2 ! singletonsStateMap (containers sharing ! 0)) 3 = None"
    by (simp add: shared1_def sharing_def init_def eval_nat_numeral lib_defs)
  from run have s2: "shared2 = s2" by (simp add: shared2_def state_of_def)
  from clone_shares_until_rebound [OF h(1-5) cl run k1 k2, of 3 0]
  obtain s3 s4 t where
    a: "\<forall>m. withContainer (call (Suc (Suc m))) 2 (Some 1) s2 = Some (Inr (Num 0), s3)"
    and b: "\<forall>k. evaluate (Suc k) (rebinding 2 3 1) s3 = Some (Inr Undefined, s4)"
    and c: "fn_at sharing 3 = Some (SingletonFn 0) \<and>
             (weakmaps s2 ! singletonsStateMap (containers sharing ! 0)) 3 = None \<longrightarrow>
               (\<forall>m x u. call m 0 t = Some (Inr x, u) \<longrightarrow>
                  (\<exists>s5. withContainer (call (Suc (Suc m))) 2 (Some 1) s4 = Some (Inr x, s5)))"
    and d: "\<forall>m. \<exists>s5. withContainer (call (Suc (Suc m))) 2 (Some 0) s4 = Some (Inr (Num 0), s5)"
    by blast
  from a have a0: "withContainer (call 2) 2 (Some 1) s2 = Some (Inr (Num 0), s3)"
    by (simp add: numeral_2_eq_2)
  then have s3: "shared3 = s3" by (simp add: shared3_def state_of_def s2)
  from b have b0: "evaluate 1 (rebinding 2 3 1) s3 = Some (Inr Undefined, s4)"
    by (metis One_nat_def)
  then have s4: "shared4 = s4" by (simp add: shared4_def state_of_def s3)
  from d obtain s5 where d0: "withContainer (call 2) 2 (Some 0) s4 = Some (Inr (Num 0), s5)"
    by (metis numeral_2_eq_2)
  have o1: "outcome (withContainer (call 2) 2 (Some 1) shared2) = Some (Inr (Num 0))"
    unfolding s2 a0 by (simp add: outcome_def)
  have o2: "outcome (evaluate 1 (rebinding 2 3 1) shared3) = Some (Inr Undefined)"
    unfolding s3 b0 by (simp add: outcome_def)
  have o4: "outcome (withContainer (call 2) 2 (Some 0) shared4) = Some (Inr (Num 0))"
    unfolding s4 d0 by (simp add: outcome_def)
  have o3: "outcome (withContainer (call 3) 2 (Some 1) shared4) = Some (Inr (Num 1))"
    by (simp add: shared4_def shared3_def shared2_def shared1_def sharing_def init_def
        state_of_def outcome_def rebinding_def eval_nat_numeral lib_defs)
  from h cl run k1 k2 n3 o1 o2 o3 o4 show ?thesis
    unfolding s2 by blast
qed

subsection \<open>C3: no ambient container\<close>

text \<open>
  Claim C3. While \<^verbatim>\<open>globalContainerContext\<close> is undefined, invoking a dependency (whatever
  function it would resolve to), \<^verbatim>\<open>_bind\<close> and \<^verbatim>\<open>getCaller\<close> each throw the error of
  \<^verbatim>\<open>assertContainerContext\<close>, and leave the state as it was.
\<close>

theorem scope_required:
  assumes "globalContainerContext s = None"
  shows "dependency_self invoke self defaultFn s = Some (Inl ScopeRequiredError, s) \<and>
         bind dep fn s = (Inl ScopeRequiredError, s) \<and>
         getCaller s = Inl ScopeRequiredError \<and>
         (fn_at s f = Some (DependencyFn defaultFn) \<longrightarrow>
            call (Suc n) f s = Some (Inl ScopeRequiredError, s))"
  using assms
  by (simp add: dependency_self_def bind_def getCaller_def the_context_def
      assertContainerContext_def)

theorem scope_required_witness:
  "globalContainerContext outside = None \<and>
   fn_at outside 1 = Some (DependencyFn 0) \<and>
   dependency_self (call 1) 1 0 outside = Some (Inl ScopeRequiredError, outside) \<and>
   bind 1 0 outside = (Inl ScopeRequiredError, outside) \<and>
   getCaller outside = Inl ScopeRequiredError \<and>
   call (Suc 1) 1 outside = Some (Inl ScopeRequiredError, outside)"
proof -
  have h: "globalContainerContext outside = None"
    by (simp add: outside_def init_def)
  have f: "fn_at outside 1 = Some (DependencyFn 0)"
    by (simp add: outside_def init_def fn_at_def)
  from scope_required [OF h, of "call 1" 1 0 1 0 1 1] h f show ?thesis
    by simp
qed

subsection \<open>C4: the ambient container is restored\<close>

text \<open>
  Claim C4. When \<^verbatim>\<open>withContainer\<close> exits, by a return or by a throw of its callback
  (whatever the callback is), \<^verbatim>\<open>globalContainerContext\<close> is what it was on entry; the
  callback ran with the given container in the slot. And the slot is what it was after
  any code of the caller has run, nested \<^verbatim>\<open>withContainer\<close> calls and caught exceptions
  included.
\<close>

theorem ambient_restored:
  "(withContainer invoke fn ctx s = Some (r, s') \<longrightarrow>
      globalContainerContext s' = globalContainerContext s) \<and>
   (withContainer invoke fn (Some c) s = Some (r, s') \<longrightarrow>
      (\<exists>t u. invoke fn t = Some (r, u) \<and> globalContainerContext t = Some c)) \<and>
   (evaluate n body s = Some (r, s') \<longrightarrow>
      globalContainerContext s' = globalContainerContext s)"
proof (intro conjI impI)
  assume "withContainer invoke fn ctx s = Some (r, s')"
  then show "globalContainerContext s' = globalContainerContext s"
    by (cases ctx)
      (auto simp: withContainer_def createContainer_def Let_def split: option.splits)
next
  assume "withContainer invoke fn (Some c) s = Some (r, s')"
  then obtain u where "invoke fn (s\<lparr>globalContainerContext := Some c\<rparr>) = Some (r, u)"
    by (auto simp: withContainer_def Let_def split: option.splits)
  then show "\<exists>t u. invoke fn t = Some (r, u) \<and> globalContainerContext t = Some c"
    by (intro exI [of _ "s\<lparr>globalContainerContext := Some c\<rparr>"] exI [of _ u]) simp
next
  assume "evaluate n body s = Some (r, s')"
  with framed_evaluate(1) [of s n body] have "frame s s'"
    by (simp add: framed_def)
  then show "globalContainerContext s' = globalContainerContext s"
    by (simp add: frame_def)
qed

theorem ambient_restored_witness:
  "outcome (withContainer (call 2) 0 None throwing) = Some (Inl (UserError (Num 7))) \<and>
   final_context (withContainer (call 2) 0 None throwing) = Some (globalContainerContext throwing) \<and>
   outcome (evaluate 2 (TryCatch (WithContainer (Lit (Fn 0)) (Lit Undefined)) GetCaller) throwing)
     = Some (Inl ScopeRequiredError) \<and>
   final_context (evaluate 2 (TryCatch (WithContainer (Lit (Fn 0)) (Lit Undefined)) GetCaller) throwing)
     = Some (globalContainerContext throwing)"
proof -
  obtain r1 t1 where h1: "withContainer (call 2) 0 None throwing = Some (r1, t1)"
    and r1: "r1 = Inl (UserError (Num 7))"
    by (simp add: throwing_def init_def numeral_2_eq_2 lib_defs)
  obtain r2 t2 where
    h2: "evaluate 2 (TryCatch (WithContainer (Lit (Fn 0)) (Lit Undefined)) GetCaller) throwing
           = Some (r2, t2)"
    and r2: "r2 = Inl ScopeRequiredError"
    by (simp add: throwing_def init_def numeral_2_eq_2 lib_defs)
  from ambient_restored [of "call 2" 0 None throwing r1 t1 0] h1
  have g1: "globalContainerContext t1 = globalContainerContext throwing" by blast
  from ambient_restored [of _ _ _ throwing r2 t2 _ 2
      "TryCatch (WithContainer (Lit (Fn 0)) (Lit Undefined)) GetCaller"] h2
  have g2: "globalContainerContext t2 = globalContainerContext throwing" by blast
  have a: "outcome (withContainer (call 2) 0 None throwing) = Some (Inl (UserError (Num 7)))"
    unfolding outcome_def h1 by (simp add: r1)
  have b: "final_context (withContainer (call 2) 0 None throwing)
             = Some (globalContainerContext throwing)"
    unfolding final_context_def h1 by (simp add: g1)
  have c: "outcome (evaluate 2 (TryCatch (WithContainer (Lit (Fn 0)) (Lit Undefined)) GetCaller)
             throwing) = Some (Inl ScopeRequiredError)"
    unfolding outcome_def h2 by (simp add: r2)
  have d: "final_context (evaluate 2 (TryCatch (WithContainer (Lit (Fn 0)) (Lit Undefined))
             GetCaller) throwing) = Some (globalContainerContext throwing)"
    unfolding final_context_def h2 by (simp add: g2)
  from a b c d show ?thesis by blast
qed

subsection \<open>C5: binding a dependency to another dependency\<close>

text \<open>
  Claim C5. \<^verbatim>\<open>bind(D, B)\<close> with \<^verbatim>\<open>B\<close> a dependency stores under \<^verbatim>\<open>D\<close>, in the active
  container, the function bound to \<^verbatim>\<open>B\<close> in that container's \<^verbatim>\<open>dependenciesMap\<close> if
  there is one, and otherwise the default function of \<^verbatim>\<open>B\<close>; resolving \<^verbatim>\<open>D\<close> afterwards
  calls that function (between the push and the pop of \<^verbatim>\<open>D\<close>), whatever the default
  of \<^verbatim>\<open>D\<close> is.
\<close>

theorem bind_dependency_aliases:
  assumes "globalContainerContext s = Some c" and "c < length (containers s)"
    and "fn_at s B = Some (DependencyFn tag)"
  shows "\<exists>s'. bind D B s = (Inr Undefined, s') \<and>
     dependenciesMap (containers s' ! c) D =
       Some (case dependenciesMap (containers s ! c) B of Some depFn \<Rightarrow> depFn | None \<Rightarrow> tag) \<and>
     (\<forall>invoke defaultFn. dependency_self invoke D defaultFn s' =
        (case invoke (case dependenciesMap (containers s ! c) B of
                        Some depFn \<Rightarrow> depFn | None \<Rightarrow> tag)
                (upd_container c (\<lambda>k. k\<lparr>callersStack := callersStack k @ [D]\<rparr>) s') of
           None \<Rightarrow> None
         | Some (r, t) \<Rightarrow>
             Some (r, upd_container c (\<lambda>k. k\<lparr>callersStack := butlast (callersStack k)\<rparr>) t)))"
  using assms
  by (simp add: bind_def dependency_self_def the_context_def assertContainerContext_def
      upd_container_def)

theorem bind_dependency_aliases_witness:
  "globalContainerContext aliasing = Some 0 \<and> 0 < length (containers aliasing) \<and>
   fn_at aliasing 1 = Some (DependencyFn 0) \<and>
   dependenciesMap (containers aliasing ! 0) 1 = Some 2 \<and>
   dependenciesMap (containers (snd (bind 4 1 aliasing)) ! 0) 4 = Some 2 \<and>
   outcome (call 2 4 (snd (bind 4 1 aliasing))) = Some (Inr (Num 2))"
proof -
  have h1: "globalContainerContext aliasing = Some 0"
    and h2: "0 < length (containers aliasing)"
    and h3: "fn_at aliasing 1 = Some (DependencyFn 0)"
    and h4: "dependenciesMap (containers aliasing ! 0) 1 = Some 2"
    by (simp_all add: aliasing_def init_def fn_at_def)
  from bind_dependency_aliases [OF h1 h2 h3, of 4] h4
  have e: "dependenciesMap (containers (snd (bind 4 1 aliasing)) ! 0) 4 = Some 2"
    by auto
  have r: "outcome (call 2 4 (snd (bind 4 1 aliasing))) = Some (Inr (Num 2))"
    by (simp add: aliasing_def init_def outcome_def numeral_2_eq_2 lib_defs)
  from h1 h2 h3 h4 e r show ?thesis by blast
qed

subsection \<open>C6: the first resolution seeds the default\<close>

text \<open>
  Claim C6. When \<^verbatim>\<open>D\<close> has no entry in the active container, resolving it calls its
  default function in a state where that function is already stored under \<^verbatim>\<open>D\<close>.
  When the resolution has ended, \<^verbatim>\<open>D\<close> still has an entry (the one the called function
  left); a clone made then has the same entry, and \<^verbatim>\<open>bind(X, D)\<close> in that container
  stores this entry under \<^verbatim>\<open>X\<close>.
\<close>

theorem first_resolution_seeds_default:
  assumes "globalContainerContext s = Some c" and "c < length (containers s)"
    and "dependenciesMap (containers s ! c) D = None"
    and "fn_at s D = Some (DependencyFn defaultFn)"
  shows "\<exists>t. dependenciesMap (containers t ! c) D = Some defaultFn \<and>
           (\<forall>invoke. dependency_self invoke D defaultFn s =
              (case invoke defaultFn t of
                 None \<Rightarrow> None
               | Some (r, u) \<Rightarrow>
                   Some (r, upd_container c
                              (\<lambda>k. k\<lparr>callersStack := butlast (callersStack k)\<rparr>) u))) \<and>
           (\<forall>n r s'. dependency_self (call n) D defaultFn s = Some (r, s') \<longrightarrow>
              (\<exists>u g. call n defaultFn t = Some (r, u) \<and>
                 dependenciesMap (containers u ! c) D = Some g \<and>
                 dependenciesMap (containers s' ! c) D = Some g \<and>
                 dependenciesMap (containers (snd (createContainer (Some c) s')) !
                                    fst (createContainer (Some c) s')) D = Some g \<and>
                 (\<forall>X. dependenciesMap (containers (snd (bind X D s')) ! c) X = Some g)))"
proof -
  define t where "t = upd_container c (\<lambda>k. k\<lparr>callersStack := callersStack k @ [D]\<rparr>)
     (upd_container c (\<lambda>k. k\<lparr>dependenciesMap := (dependenciesMap k)(D \<mapsto> defaultFn)\<rparr>) s)"
  have seeded: "dependenciesMap (containers t ! c) D = Some defaultFn"
    using assms(2) by (simp add: t_def upd_container_def)
  have eq: "dependency_self invoke D defaultFn s =
              (case invoke defaultFn t of
                 None \<Rightarrow> None
               | Some (r, u) \<Rightarrow>
                   Some (r, upd_container c
                              (\<lambda>k. k\<lparr>callersStack := butlast (callersStack k)\<rparr>) u))" for invoke
    using assms(1,3)
    by (simp add: dependency_self_def the_context_def assertContainerContext_def t_def)
  have len: "length (containers t) = length (containers s)"
    and gt: "globalContainerContext t = Some c"
    and ft: "funs t = funs s"
    using assms(1) by (simp_all add: t_def upd_container_def)
  have after: "\<exists>u g. call n defaultFn t = Some (r, u) \<and>
                 dependenciesMap (containers u ! c) D = Some g \<and>
                 dependenciesMap (containers s' ! c) D = Some g \<and>
                 dependenciesMap (containers (snd (createContainer (Some c) s')) !
                                    fst (createContainer (Some c) s')) D = Some g \<and>
                 (\<forall>X. dependenciesMap (containers (snd (bind X D s')) ! c) X = Some g)"
    if run: "dependency_self (call n) D defaultFn s = Some (r, s')" for n r s'
  proof -
    from run eq [of "call n"] obtain u where u: "call n defaultFn t = Some (r, u)"
      and s': "s' = upd_container c (\<lambda>k. k\<lparr>callersStack := butlast (callersStack k)\<rparr>) u"
      by (auto split: option.splits)
    from frame_call [OF u] have fr: "frame t u" .
    from fr len assms(2) have cu: "c < length (containers u)"
      by (simp add: frame_def)
    from assms(2) len have "c < length (containers t)" by simp
    with fr seeded have "D \<in> dom (dependenciesMap (containers u ! c))"
      by (metis frame_entry)
    then obtain g where g: "dependenciesMap (containers u ! c) D = Some g"
      by blast
    from g cu s' have g': "dependenciesMap (containers s' ! c) D = Some g"
      by (simp add: upd_container_def)
    from cu s' have cs': "c < length (containers s')"
      by (simp add: upd_container_def)
    from g' have clone: "dependenciesMap (containers (snd (createContainer (Some c) s')) !
                                    fst (createContainer (Some c) s')) D = Some g"
      by (simp add: createContainer_def)
    from fr gt s' have gs': "globalContainerContext s' = Some c"
      by (simp add: frame_def upd_container_def)
    from fr ft obtain fs where "funs u = funs s @ fs"
      by (auto simp: frame_def)
    with assms(4) s' have fs': "fn_at s' D = Some (DependencyFn defaultFn)"
      by (auto simp: fn_at_def upd_container_def nth_append split: if_splits)
    have "dependenciesMap (containers (snd (bind X D s')) ! c) X = Some g" for X
      using gs' fs' g' cs'
      by (simp add: bind_def the_context_def assertContainerContext_def upd_container_def)
    with u g g' clone show ?thesis by blast
  qed
  from seeded eq after show ?thesis by blast
qed

theorem first_resolution_seeds_default_witness:
  "globalContainerContext seeding = Some 0 \<and> 0 < length (containers seeding) \<and>
   dependenciesMap (containers seeding ! 0) 1 = None \<and>
   fn_at seeding 1 = Some (DependencyFn 0) \<and>
   outcome (dependency_self (call 1) 1 0 seeding) = Some (Inr (Num 1)) \<and>
   final_entry 0 1 (dependency_self (call 1) 1 0 seeding) = Some 0"
proof -
  have h1: "globalContainerContext seeding = Some 0"
    and h2: "0 < length (containers seeding)"
    and h3: "dependenciesMap (containers seeding ! 0) 1 = None"
    and h4: "fn_at seeding 1 = Some (DependencyFn 0)"
    by (simp_all add: seeding_def init_def fn_at_def)
  obtain r s' where h: "dependency_self (call 1) 1 0 seeding = Some (r, s')"
    and r: "r = Inr (Num 1)" and e: "dependenciesMap (containers s' ! 0) 1 = Some 0"
    by (simp add: seeding_def init_def lib_defs)
  from first_resolution_seeds_default [OF h1 h2 h3 h4] h
  have "dependenciesMap (containers s' ! 0) 1 \<noteq> None"
    by fastforce
  with e have b: "final_entry 0 1 (dependency_self (call 1) 1 0 seeding) = Some 0"
    unfolding final_entry_def h by simp
  have a: "outcome (dependency_self (call 1) 1 0 seeding) = Some (Inr (Num 1))"
    unfolding outcome_def h by (simp add: r)
  from h1 h2 h3 h4 a b show ?thesis by blast
qed

subsection \<open>C7: the caller of the resolving dependency\<close>

text \<open>
  Claim C7. With an active container, \<^verbatim>\<open>getCaller\<close> returns the entry of \<^verbatim>\<open>callersStack\<close>
  before the last one, and \<^verbatim>\<open>undefined\<close> when the stack has fewer than two entries.
  In the run of the test, \<^verbatim>\<open>dep\<close> sees \<^verbatim>\<open>d1\<close> when \<^verbatim>\<open>d1\<close> resolves it and \<^verbatim>\<open>d2\<close> when
  \<^verbatim>\<open>d2\<close> does; resolved as the outermost dependency it sees \<^verbatim>\<open>undefined\<close>, and so does
  the callback of \<^verbatim>\<open>withContainer\<close> outside of any resolution.
\<close>

theorem getCaller_second_to_last:
  assumes "globalContainerContext s = Some c"
  shows "(callersStack (containers s ! c) = xs @ [a, b] \<longrightarrow> getCaller s = Inr (Fn a)) \<and>
         (length (callersStack (containers s ! c)) < 2 \<longrightarrow> getCaller s = Inr Undefined) \<and>
         outcome (evaluate (Suc (Suc (Suc (Suc (Suc n))))) callers init)
           = Some (Inr (Arr [Num 1, Num 2, Undefined, Undefined]))"
proof (intro conjI)
  from assms
  show "callersStack (containers s ! c) = xs @ [a, b] \<longrightarrow> getCaller s = Inr (Fn a)"
    by (auto simp: getCaller_def the_context_def assertContainerContext_def Let_def nth_append)
  from assms
  show "length (callersStack (containers s ! c)) < 2 \<longrightarrow> getCaller s = Inr Undefined"
    by (auto simp: getCaller_def the_context_def assertContainerContext_def Let_def)
  show "outcome (evaluate (Suc (Suc (Suc (Suc (Suc n))))) callers init)
           = Some (Inr (Arr [Num 1, Num 2, Undefined, Undefined]))"
    by (simp add: outcome_def callers_def init_def lib_defs)
qed

theorem getCaller_second_to_last_witness:
  "globalContainerContext resolving = Some 0 \<and>
   callersStack (containers resolving ! 0) = [] @ [3, 5] \<and>
   getCaller resolving = Inr (Fn 3) \<and>
   length (callersStack (containers (upd_container 0 (\<lambda>k. k\<lparr>callersStack := [5]\<rparr>) resolving) ! 0)) < 2 \<and>
   getCaller (upd_container 0 (\<lambda>k. k\<lparr>callersStack := [5]\<rparr>) resolving) = Inr Undefined"
proof -
  have h: "globalContainerContext resolving = Some 0"
    by (simp add: resolving_def init_def)
  have h': "globalContainerContext (upd_container 0 (\<lambda>k. k\<lparr>callersStack := [5]\<rparr>) resolving) = Some 0"
    by (simp add: resolving_def init_def upd_container_def)
  have st: "callersStack (containers resolving ! 0) = [] @ [3, 5]"
    by (simp add: resolving_def init_def)
  have st': "length (callersStack (containers (upd_container 0 (\<lambda>k. k\<lparr>callersStack := [5]\<rparr>) resolving) ! 0)) < 2"
    by (simp add: resolving_def init_def upd_container_def)
  from getCaller_second_to_last [OF h, of "[]" 3 5 0]
    getCaller_second_to_last [OF h', of "[]" 3 5 0] h st st'
  show ?thesis
    by simp
qed

subsection \<open>C8: a resolution pops what it pushed\<close>

text \<open>
  Claim C8. When the resolution of a dependency ends, with a value or with any
  exception, the \<^verbatim>\<open>callersStack\<close> of every container holds the entries it held when
  the resolution began; in between, the resolved function was called with the
  dependency pushed on the stack of the active container, and ended with that stack.
\<close>

theorem resolve_restores_callersStack:
  assumes "dependency_self (call n) self defaultFn s = Some (r, s')"
    and "k < length (containers s)"
  shows "callersStack (containers s' ! k) = callersStack (containers s ! k) \<and>
         (globalContainerContext s = Some k \<longrightarrow>
            (\<exists>depFn t u. call n depFn t = Some (r, u) \<and>
               callersStack (containers t ! k) = callersStack (containers s ! k) @ [self] \<and>
               callersStack (containers u ! k) = callersStack (containers s ! k) @ [self]))"
proof (intro conjI impI)
  have "framed s (dependency_self (call n) self defaultFn s)"
    by (rule framed_dependency_self) (rule framed_evaluate(3))
  with assms(1) have "frame s s'" by (simp add: framed_def)
  with assms(2) show "callersStack (containers s' ! k) = callersStack (containers s ! k)"
    by (simp add: frame_def)
next
  assume act: "globalContainerContext s = Some k"
  define s1 where "s1 = (case dependenciesMap (containers s ! k) self of
                    Some g \<Rightarrow> s
                  | None \<Rightarrow> upd_container k
                         (\<lambda>c. c\<lparr>dependenciesMap := (dependenciesMap c)(self \<mapsto> defaultFn)\<rparr>) s)"
  define depFn where "depFn = (case dependenciesMap (containers s ! k) self of
                    Some g \<Rightarrow> g | None \<Rightarrow> defaultFn)"
  define t where "t = upd_container k (\<lambda>c. c\<lparr>callersStack := callersStack c @ [self]\<rparr>) s1"
  have eq: "dependency_self (call n) self defaultFn s =
      (case call n depFn t of None \<Rightarrow> None
       | Some (r, u) \<Rightarrow> Some (r, upd_container k (\<lambda>c. c\<lparr>callersStack := butlast (callersStack c)\<rparr>) u))"
    using act
    by (simp add: dependency_self_def the_context_def assertContainerContext_def
        s1_def t_def depFn_def split: option.splits)
  with assms(1) obtain u where u: "call n depFn t = Some (r, u)"
    by (auto split: option.splits)
  have len: "length (containers t) = length (containers s)"
    by (simp add: t_def s1_def upd_container_def split: option.splits)
  have st: "callersStack (containers t ! k) = callersStack (containers s ! k) @ [self]"
    using assms(2)
    by (simp add: t_def s1_def upd_container_def split: option.splits)
  from frame_call [OF u] len assms(2)
  have "callersStack (containers u ! k) = callersStack (containers t ! k)"
    by (simp add: frame_def)
  with u st show "\<exists>depFn t u. call n depFn t = Some (r, u) \<and>
               callersStack (containers t ! k) = callersStack (containers s ! k) @ [self] \<and>
               callersStack (containers u ! k) = callersStack (containers s ! k) @ [self]"
    by auto
qed

theorem resolve_restores_callersStack_witness:
  "0 < length (containers failing) \<and> globalContainerContext failing = Some 0 \<and>
   outcome (dependency_self (call 3) 3 2 failing) = Some (Inl (UserError (Num 7))) \<and>
   final_stack 0 (dependency_self (call 3) 3 2 failing) = Some (callersStack (containers failing ! 0))"
proof -
  have k: "0 < length (containers failing)"
    and g: "globalContainerContext failing = Some 0"
    by (simp_all add: failing_def init_def)
  obtain r s' where h: "dependency_self (call 3) 3 2 failing = Some (r, s')"
    and r: "r = Inl (UserError (Num 7))"
    by (simp add: failing_def init_def numeral_3_eq_3 lib_defs)
  from resolve_restores_callersStack [OF h k]
  have st: "callersStack (containers s' ! 0) = callersStack (containers failing ! 0)"
    by blast
  have a: "outcome (dependency_self (call 3) 3 2 failing) = Some (Inl (UserError (Num 7)))"
    unfolding outcome_def h by (simp add: r)
  have b: "final_stack 0 (dependency_self (call 3) 3 2 failing)
             = Some (callersStack (containers failing ! 0))"
    unfolding final_stack_def h by (simp add: st)
  from k g a b show ?thesis by blast
qed

subsection \<open>C9: a clone and its source share one map of singleton states\<close>

text \<open>
  Claim C9 says that the source computes a value of its own after the clone has cached
  one. In the run below the clone resolves the singleton first and the source next:
  both get \<open>0\<close>, and the counter has been called once.
\<close>

theorem clone_resolves_first_counterexample:
  "outcome (evaluate 4 (clone_resolves_first 0) init) = Some (Inr (Arr [Num 0, Num 0])) \<and>
   final_var 0 (evaluate 4 (clone_resolves_first 0) init) = Some (Num 1)"
  by (simp add: outcome_def final_var_def clone_resolves_first_def rand_def init_def
      eval_nat_numeral lib_defs)

text \<open>
  Claim C9, amended. A clone made by \<^verbatim>\<open>createContainer\<close> has the map of singleton states
  of its source, one object for both. Hence, when a singleton function has returned a
  value in a container, its next call in any container with the same map of singleton
  states (the source of a clone, or the clone of a source) returns that value, and
  calls nothing.
\<close>

theorem clone_shares_singleton_states:
  "(c < length (containers s0) \<and> createContainer (Some c) s0 = (k, s1) \<longrightarrow>
      k < length (containers s1) \<and> c < length (containers s1) \<and> k \<noteq> c \<and>
      singletonsStateMap (containers s1 ! k) = singletonsStateMap (containers s1 ! c)) \<and>
   (k < length (containers s) \<and> c < length (containers s) \<and>
    singletonsStateMap (containers s ! k) = singletonsStateMap (containers s ! c) \<and>
    singletonsStateMap (containers s ! k) < length (weakmaps s) \<and>
    globalContainerContext s = Some k \<and>
    singletonFunction_self (call n) self fn s = Some (Inr v, s') \<longrightarrow>
      singletonFunction_self invoke self fn (s'\<lparr>globalContainerContext := Some c\<rparr>)
        = Some (Inr v, s'\<lparr>globalContainerContext := Some c\<rparr>))"
proof (intro conjI impI; elim conjE)
  assume "c < length (containers s0)" and "createContainer (Some c) s0 = (k, s1)"
  then show "k < length (containers s1)" and "c < length (containers s1)" and "k \<noteq> c"
    and "singletonsStateMap (containers s1 ! k) = singletonsStateMap (containers s1 ! c)"
    by (auto simp: createContainer_def nth_append)
next
  assume k: "k < length (containers s)" and c: "c < length (containers s)"
    and sh: "singletonsStateMap (containers s ! k) = singletonsStateMap (containers s ! c)"
    and w: "singletonsStateMap (containers s ! k) < length (weakmaps s)"
    and act: "globalContainerContext s = Some k"
    and run: "singletonFunction_self (call n) self fn s = Some (Inr v, s')"
  define w0 where "w0 = singletonsStateMap (containers s ! k)"
  have cached: "singletonsStateMap (containers s' ! c) = w0 \<and> (weakmaps s' ! w0) self = Some v"
  proof (cases "(weakmaps s ! w0) self")
    case (Some v')
    with run act have "s' = s" and "v' = v"
      by (simp_all add: singletonFunction_self_def the_context_def assertContainerContext_def
          w0_def)
    with Some sh show ?thesis by (simp add: w0_def)
  next
    case None
    with run act obtain s1 where s1: "call n fn s = Some (Inr v, s1)"
      and s': "s' = s1\<lparr>weakmaps := (weakmaps s1)[w0 := (weakmaps s1 ! w0)(self \<mapsto> v)]\<rparr>"
      by (auto simp: singletonFunction_self_def the_context_def assertContainerContext_def
          w0_def Let_def split: option.splits sum.splits)
    from frame_call [OF s1] c w sh
    have "singletonsStateMap (containers s1 ! c) = w0" and "w0 < length (weakmaps s1)"
      by (simp_all add: frame_def w0_def)
    with s' show ?thesis by simp
  qed
  then show "singletonFunction_self invoke self fn (s'\<lparr>globalContainerContext := Some c\<rparr>)
        = Some (Inr v, s'\<lparr>globalContainerContext := Some c\<rparr>)"
    by (simp add: singletonFunction_self_def the_context_def assertContainerContext_def)
qed

theorem clone_shares_singleton_states_witness:
  "1 < length (containers cloned) \<and> 0 < length (containers cloned) \<and>
   singletonsStateMap (containers cloned ! 1) = singletonsStateMap (containers cloned ! 0) \<and>
   singletonsStateMap (containers cloned ! 1) < length (weakmaps cloned) \<and>
   globalContainerContext cloned = Some 1 \<and>
   outcome (singletonFunction_self (call 1) 1 0 cloned) = Some (Inr (Num 42)) \<and>
   outcome (and_then (singletonFunction_self (call 1) 1 0 cloned) in_source)
     = Some (Inr (Num 42))"
proof -
  have h: "1 < length (containers cloned)" "0 < length (containers cloned)"
    "singletonsStateMap (containers cloned ! 1) = singletonsStateMap (containers cloned ! 0)"
    "singletonsStateMap (containers cloned ! 1) < length (weakmaps cloned)"
    "globalContainerContext cloned = Some 1"
    by (simp_all add: cloned_def init_def createContainer_def)
  obtain s' where run: "singletonFunction_self (call 1) 1 0 cloned = Some (Inr (Num 42), s')"
    by (simp add: cloned_def init_def lib_defs)
  from clone_shares_singleton_states [of 0 _ 1 _ cloned 1 1 0 "Num 42" s' never] h run
  have "singletonFunction_self never 1 0 (s'\<lparr>globalContainerContext := Some 0\<rparr>)
          = Some (Inr (Num 42), s'\<lparr>globalContainerContext := Some 0\<rparr>)"
    by blast
  then have b: "outcome (and_then (singletonFunction_self (call 1) 1 0 cloned) in_source)
     = Some (Inr (Num 42))"
    unfolding and_then_def run by (simp add: outcome_def in_source_def)
  have a: "outcome (singletonFunction_self (call 1) 1 0 cloned) = Some (Inr (Num 42))"
    unfolding outcome_def run by simp
  from h a b show ?thesis by blast
qed

subsection \<open>C10: the alias is resolved once, when it is bound\<close>

text \<open>
  Claim C10 says that the entry stored by \<^verbatim>\<open>bind(D, B)\<close> is a plain function, never the
  dependency \<^verbatim>\<open>B\<close>. In the run below \<^verbatim>\<open>K = dependency(B)\<close>; \<^verbatim>\<open>bind(B, K)\<close> stores the
  default of \<^verbatim>\<open>K\<close>, which is \<^verbatim>\<open>B\<close>, under \<^verbatim>\<open>B\<close>, and \<^verbatim>\<open>bind(D, B)\<close> then stores
  \<^verbatim>\<open>B\<close> under \<^verbatim>\<open>D\<close>.
\<close>

theorem bind_to_itself_counterexample:
  "final_var 1 (evaluate 1 bind_to_itself init) = Some (Fn 1) \<and>
   final_var 3 (evaluate 1 bind_to_itself init) = Some (Fn 4) \<and>
   final_fn 1 (evaluate 1 bind_to_itself init) = Some (DependencyFn 0) \<and>
   final_entry 0 4 (evaluate 1 bind_to_itself init) = Some 1"
  by (simp add: final_var_def final_fn_def final_entry_def bind_to_itself_def init_def
      lib_defs)

text \<open>
  Claim C10, amended. \<^verbatim>\<open>bind(D, B)\<close> with \<^verbatim>\<open>B\<close> a dependency stores under \<^verbatim>\<open>D\<close> the
  function that governs \<^verbatim>\<open>B\<close> at that moment (the entry of \<^verbatim>\<open>B\<close>, else its default);
  binding \<^verbatim>\<open>B\<close> to anything afterwards leaves the entry of another dependency \<^verbatim>\<open>D\<close>
  as it is; and after \<^verbatim>\<open>bind(B, B)\<close> the dependency \<^verbatim>\<open>B\<close> resolves as it did before.
\<close>

theorem bind_alias_fixed_at_bind_time:
  assumes "globalContainerContext s = Some c" and "c < length (containers s)"
    and "fn_at s B = Some (DependencyFn tag)"
  shows "dependenciesMap (containers (snd (bind D B s)) ! c) D =
           Some (case dependenciesMap (containers s ! c) B of
                   Some depFn \<Rightarrow> depFn | None \<Rightarrow> tag) \<and>
         (D \<noteq> B \<longrightarrow>
            dependenciesMap (containers (snd (bind B h (snd (bind D B s)))) ! c) D =
            dependenciesMap (containers (snd (bind D B s)) ! c) D) \<and>
         dependency_self invoke B tag (snd (bind B B s)) = dependency_self invoke B tag s"
proof (intro conjI impI)
  show "dependenciesMap (containers (snd (bind D B s)) ! c) D =
           Some (case dependenciesMap (containers s ! c) B of
                   Some depFn \<Rightarrow> depFn | None \<Rightarrow> tag)"
    using assms
    by (simp add: bind_def the_context_def assertContainerContext_def upd_container_def)
next
  assume "D \<noteq> B"
  with assms(1,2)
  show "dependenciesMap (containers (snd (bind B h (snd (bind D B s)))) ! c) D =
            dependenciesMap (containers (snd (bind D B s)) ! c) D"
    by (simp add: bind_def the_context_def assertContainerContext_def upd_container_def)
next
  show "dependency_self invoke B tag (snd (bind B B s)) = dependency_self invoke B tag s"
  proof (cases "dependenciesMap (containers s ! c) B")
    case None
    with assms show ?thesis
      by (simp add: bind_def dependency_self_def the_context_def assertContainerContext_def
          upd_container_def)
  next
    case (Some g)
    then have "(dependenciesMap (containers s ! c))(B \<mapsto> g) = dependenciesMap (containers s ! c)"
      by (simp add: map_upd_triv)
    with assms Some have "snd (bind B B s) = s"
      by (simp add: bind_def the_context_def assertContainerContext_def upd_container_def)
    then show ?thesis by simp
  qed
qed

theorem bind_alias_fixed_at_bind_time_witness:
  "globalContainerContext aliasing = Some 0 \<and> 0 < length (containers aliasing) \<and>
   fn_at aliasing 1 = Some (DependencyFn 0) \<and> (4::fid) \<noteq> 1 \<and>
   dependenciesMap (containers (snd (bind 4 1 aliasing)) ! 0) 4 = Some 2 \<and>
   dependenciesMap (containers (snd (bind 1 3 (snd (bind 4 1 aliasing)))) ! 0) 4 = Some 2 \<and>
   dependency_self (call 1) 1 0 (snd (bind 1 1 aliasing)) = dependency_self (call 1) 1 0 aliasing"
proof -
  have h1: "globalContainerContext aliasing = Some 0"
    and h2: "0 < length (containers aliasing)"
    and h3: "fn_at aliasing 1 = Some (DependencyFn 0)"
    and h4: "dependenciesMap (containers aliasing ! 0) 1 = Some 2"
    by (simp_all add: aliasing_def init_def fn_at_def)
  note t = bind_alias_fixed_at_bind_time [OF h1 h2 h3, of 4 3 "call 1"]
  from t h4 have a: "dependenciesMap (containers (snd (bind 4 1 aliasing)) ! 0) 4 = Some 2"
    by simp
  from t a have b: "dependenciesMap (containers (snd (bind 1 3 (snd (bind 4 1 aliasing)))) ! 0) 4
      = Some 2"
    by simp
  from t have c: "dependency_self (call 1) 1 0 (snd (bind 1 1 aliasing))
      = dependency_self (call 1) 1 0 aliasing"
    by blast
  from h1 h2 h3 a b c show ?thesis by simp
qed

end
